theory Spec2Isabelle
  imports Main "HOL-Library.AList"
begin

section \<open>JSON values and their text\<close>

text \<open>
  The payloads of the request helper (\<open>data?: object\<close>) and the compliance data types are
  plain JSON data. A JSON object is kept as the list of its properties in enumeration
  order. Strings are byte strings; numbers are the integers.
\<close>

datatype json =
    JNull
  | JBool bool
  | JNumber int
  | JString string
  | JArray "json list"
  | JObject "(string \<times> json) list"

text \<open>
  TypeScript's \<open>object\<close> is every non-primitive value: of the JSON values, the objects and
  the arrays. Each of them is truthy.
\<close>

datatype object = ObjectOf "(string \<times> json) list" | ArrayOf "json list"

fun json_of :: "object \<Rightarrow> json" where
  "json_of (ObjectOf kvs) = JObject kvs"
| "json_of (ArrayOf xs) = JArray xs"

definition digit :: "nat \<Rightarrow> char" where
  "digit n = ''0123456789abcdef'' ! n"

fun show_nat :: "nat \<Rightarrow> string" where
  "show_nat n = (if n < 10 then [digit n] else show_nat (n div 10) @ [digit (n mod 10)])"

declare show_nat.simps [simp del]

definition show_int :: "int \<Rightarrow> string" where
  "show_int i = (if i < 0 then CHR ''-'' # show_nat (nat (- i)) else show_nat (nat i))"

fun join :: "string \<Rightarrow> string list \<Rightarrow> string" where
  "join sep [] = []"
| "join sep [x] = x"
| "join sep (x # y # ys) = x @ sep @ join sep (y # ys)"

text \<open>
  \<open>JSON.stringify\<close> is the platform's function. On JSON data it writes no white space;
  it writes a string between double quotes (\<open>CHR 0x22\<close>) and escapes the double quote,
  the backslash (\<open>CHR 0x5C\<close>) and the control characters below \<open>0x20\<close>; it writes an
  integer in decimal digits, and the properties of an object in their order.
\<close>

definition escape_char :: "char \<Rightarrow> string" where
  "escape_char c =
     (if c = CHR 0x22 then [CHR 0x5C, CHR 0x22]
      else if c = CHR 0x5C then [CHR 0x5C, CHR 0x5C]
      else if c = CHR 0x08 then [CHR 0x5C, CHR ''b'']
      else if c = CHR 0x0C then [CHR 0x5C, CHR ''f'']
      else if c = CHR 0x0A then [CHR 0x5C, CHR ''n'']
      else if c = CHR 0x0D then [CHR 0x5C, CHR ''r'']
      else if c = CHR 0x09 then [CHR 0x5C, CHR ''t'']
      else if (of_char c :: nat) < 32
        then [CHR 0x5C, CHR ''u'', CHR ''0'', CHR ''0'',
              digit (of_char c div 16), digit (of_char c mod 16)]
      else [c])"

definition quote :: "string \<Rightarrow> string" where
  "quote s = CHR 0x22 # concat (map escape_char s) @ [CHR 0x22]"

fun JSON_stringify :: "json \<Rightarrow> string" where
  "JSON_stringify JNull = ''null''"
| "JSON_stringify (JBool b) = (if b then ''true'' else ''false'')"
| "JSON_stringify (JNumber n) = show_int n"
| "JSON_stringify (JString s) = quote s"
| "JSON_stringify (JArray xs) = ''['' @ join '','' (map JSON_stringify xs) @ '']''"
| "JSON_stringify (JObject kvs) =
     ''{'' @ join '','' (map (\<lambda>(k, v). quote k @ '':'' @ JSON_stringify v) kvs) @ ''}''"

subsection \<open>Decoding a JSON text\<close>

text \<open>
  Modelled from the spec: decoding a JSON text (the specification's round trip, section 8
  property 7) is the platform's \<open>JSON.parse\<close>, which is no part of the sources. It is
  modelled on the JSON grammar: white space between tokens, the literals, strings with
  their escapes, arrays and objects; of the numbers, the integers (a fraction or an
  exponent is refused, as the model has no such values), and of the \<open>\u\<close> escapes those
  of one byte. A property name that occurs twice keeps its place and takes the later
  value. The recursion is bounded by a fuel argument; \<open>JSON_parse\<close> gives it the length of
  the text.
\<close>

definition is_ws :: "char \<Rightarrow> bool" where
  "is_ws c = (c = CHR '' '' \<or> c = CHR 0x09 \<or> c = CHR 0x0A \<or> c = CHR 0x0D)"

definition skip_ws :: "string \<Rightarrow> string" where
  "skip_ws s = dropWhile is_ws s"

definition is_digit :: "char \<Rightarrow> bool" where
  "is_digit c = (c \<in> set ''0123456789'')"

definition digit_val :: "char \<Rightarrow> nat" where
  "digit_val c = of_char c - 48"

definition hex_val :: "char \<Rightarrow> nat option" where
  "hex_val c =
     (if is_digit c then Some (of_char c - 48)
      else if c \<in> set ''abcdef'' then Some (of_char c - 87)
      else if c \<in> set ''ABCDEF'' then Some (of_char c - 55)
      else None)"

definition unescape :: "char \<Rightarrow> char option" where
  "unescape e =
     (if e = CHR 0x22 then Some (CHR 0x22)
      else if e = CHR 0x5C then Some (CHR 0x5C)
      else if e = CHR ''/'' then Some (CHR ''/'')
      else if e = CHR ''b'' then Some (CHR 0x08)
      else if e = CHR ''f'' then Some (CHR 0x0C)
      else if e = CHR ''n'' then Some (CHR 0x0A)
      else if e = CHR ''r'' then Some (CHR 0x0D)
      else if e = CHR ''t'' then Some (CHR 0x09)
      else None)"

definition hex4 :: "char \<Rightarrow> char \<Rightarrow> char \<Rightarrow> char \<Rightarrow> nat option" where
  "hex4 a b c d =
     (case (hex_val a, hex_val b, hex_val c, hex_val d) of
        (Some x, Some y, Some z, Some w) \<Rightarrow> Some (((x * 16 + y) * 16 + z) * 16 + w)
      | _ \<Rightarrow> None)"

definition cons_char :: "char \<Rightarrow> (string \<times> string) option \<Rightarrow> (string \<times> string) option" where
  "cons_char c r = (case r of None \<Rightarrow> None | Some (s, rest) \<Rightarrow> Some (c # s, rest))"

fun parse_chars :: "string \<Rightarrow> (string \<times> string) option" where
  "parse_chars [] = None"
| "parse_chars (c # cs) =
     (if c = CHR 0x22 then Some ([], cs)
      else if c = CHR 0x5C then
        (case cs of
           [] \<Rightarrow> None
         | e # es \<Rightarrow>
             if e = CHR ''u'' then
               (case es of
                  a # b # x # d # r \<Rightarrow>
                    (case hex4 a b x d of
                       None \<Rightarrow> None
                     | Some n \<Rightarrow> if n < 256 then cons_char (char_of n) (parse_chars r) else None)
                | _ \<Rightarrow> None)
             else (case unescape e of
                     None \<Rightarrow> None
                   | Some u \<Rightarrow> cons_char u (parse_chars es)))
      else if (of_char c :: nat) < 32 then None
      else cons_char c (parse_chars cs))"

definition nat_of_digits :: "string \<Rightarrow> nat" where
  "nat_of_digits ds = foldl (\<lambda>a c. 10 * a + digit_val c) 0 ds"

definition parse_nat :: "string \<Rightarrow> (nat \<times> string) option" where
  "parse_nat s =
     (let ds = takeWhile is_digit s; rest = dropWhile is_digit s
      in if ds = [] then None
         else if length ds > 1 \<and> hd ds = CHR ''0'' then None
         else (case rest of
                 [] \<Rightarrow> Some (nat_of_digits ds, rest)
               | c # cs \<Rightarrow> if c \<in> set ''.eE'' then None else Some (nat_of_digits ds, rest)))"

definition parse_number :: "string \<Rightarrow> (json \<times> string) option" where
  "parse_number s =
     (case s of
        [] \<Rightarrow> None
      | c # cs \<Rightarrow>
          if c = CHR ''-''
          then (case parse_nat cs of None \<Rightarrow> None | Some (n, r) \<Rightarrow> Some (JNumber (- int n), r))
          else (case parse_nat s of None \<Rightarrow> None | Some (n, r) \<Rightarrow> Some (JNumber (int n), r)))"

definition strip_prefix :: "string \<Rightarrow> string \<Rightarrow> string option" where
  "strip_prefix p s = (if take (length p) s = p then Some (drop (length p) s) else None)"

fun parse_value :: "nat \<Rightarrow> string \<Rightarrow> (json \<times> string) option"
  and parse_elements :: "nat \<Rightarrow> string \<Rightarrow> (json list \<times> string) option"
  and parse_members :: "nat \<Rightarrow> string \<Rightarrow> (string \<times> json) list \<Rightarrow> ((string \<times> json) list \<times> string) option"
where
  "parse_value 0 s = None"
| "parse_value (Suc n) s =
     (case skip_ws s of
        [] \<Rightarrow> None
      | c # cs \<Rightarrow>
          if c = CHR 0x22 then
            (case parse_chars cs of None \<Rightarrow> None | Some (str, r) \<Rightarrow> Some (JString str, r))
          else if c = CHR ''['' then
            (case skip_ws cs of
               [] \<Rightarrow> None
             | d # r \<Rightarrow>
                 if d = CHR '']'' then Some (JArray [], r)
                 else (case parse_elements n cs of
                         None \<Rightarrow> None
                       | Some (xs, r') \<Rightarrow> Some (JArray xs, r')))
          else if c = CHR ''{'' then
            (case skip_ws cs of
               [] \<Rightarrow> None
             | d # r \<Rightarrow>
                 if d = CHR ''}'' then Some (JObject [], r)
                 else (case parse_members n cs [] of
                         None \<Rightarrow> None
                       | Some (kvs, r') \<Rightarrow> Some (JObject kvs, r')))
          else if c = CHR ''n'' then
            (case strip_prefix ''ull'' cs of None \<Rightarrow> None | Some r \<Rightarrow> Some (JNull, r))
          else if c = CHR ''t'' then
            (case strip_prefix ''rue'' cs of None \<Rightarrow> None | Some r \<Rightarrow> Some (JBool True, r))
          else if c = CHR ''f'' then
            (case strip_prefix ''alse'' cs of None \<Rightarrow> None | Some r \<Rightarrow> Some (JBool False, r))
          else parse_number (c # cs))"
| "parse_elements 0 s = None"
| "parse_elements (Suc n) s =
     (case parse_value n s of
        None \<Rightarrow> None
      | Some (v, r) \<Rightarrow>
          (case skip_ws r of
             [] \<Rightarrow> None
           | c # r' \<Rightarrow>
               if c = CHR '','' then
                 (case parse_elements n r' of None \<Rightarrow> None | Some (vs, r'') \<Rightarrow> Some (v # vs, r''))
               else if c = CHR '']'' then Some ([v], r')
               else None))"
| "parse_members 0 s acc = None"
| "parse_members (Suc n) s acc =
     (case skip_ws s of
        [] \<Rightarrow> None
      | q # cs \<Rightarrow>
          if q \<noteq> CHR 0x22 then None
          else (case parse_chars cs of
                  None \<Rightarrow> None
                | Some (k, r) \<Rightarrow>
                    (case skip_ws r of
                       [] \<Rightarrow> None
                     | colon # r1 \<Rightarrow>
                         if colon \<noteq> CHR '':'' then None
                         else (case parse_value n r1 of
                                 None \<Rightarrow> None
                               | Some (v, r2) \<Rightarrow>
                                   (case skip_ws r2 of
                                      [] \<Rightarrow> None
                                    | c # r3 \<Rightarrow>
                                        if c = CHR '','' then
                                          parse_members n r3 (AList.update k v acc)
                                        else if c = CHR ''}'' then
                                          Some (AList.update k v acc, r3)
                                        else None)))))"

definition JSON_parse :: "string \<Rightarrow> json option" where
  "JSON_parse s =
     (case parse_value (length s) s of
        None \<Rightarrow> None
      | Some (j, rest) \<Rightarrow> if skip_ws rest = [] then Some j else None)"

text \<open>
  For the proofs: the fuel a value needs, the values whose objects have distinct property
  names, the characters a value's text starts with, the rests of a text that end a number,
  and the text of one property.
\<close>

fun need :: "json \<Rightarrow> nat" where
  "need (JArray xs) = Suc (sum_list (map (\<lambda>x. Suc (need x)) xs))"
| "need (JObject kvs) = Suc (sum_list (map (\<lambda>(k, v). Suc (need v)) kvs))"
| "need j = 1"

fun wf_json :: "json \<Rightarrow> bool" where
  "wf_json (JArray xs) = list_all wf_json xs"
| "wf_json (JObject kvs) = (distinct (map fst kvs) \<and> list_all (\<lambda>(k, v). wf_json v) kvs)"
| "wf_json j = True"

definition value_start :: "char \<Rightarrow> bool" where
  "value_start c = (c = CHR 0x22 \<or> c \<in> set ''[{ntf-0123456789'')"

definition delimited :: "string \<Rightarrow> bool" where
  "delimited rest = (case rest of [] \<Rightarrow> True | c # cs \<Rightarrow> c \<in> set '',]}'')"

definition member_text :: "string \<times> json \<Rightarrow> string" where
  "member_text kv = quote (fst kv) @ '':'' @ JSON_stringify (snd kv)"

section \<open>The compliance data type\<close>

text \<open>
  \<open>interface IComplianceDataType\<close>. The enumerations \<open>Classification\<close>, \<open>IdLogicalType\<close>,
  \<open>ComplianceFieldIdValue\<close> and \<open>NonIdLogicalType\<close> are declared in
  \<open>wherehows-web/constants\<close>, which is not among the sources; by the specification they
  are closed sets of string constants, and a value of them is its string. The property
  \<open>id\<close> is named \<open>id'\<close> here, and the property the source names \<open>$URN\<close> is \<open>urn\<close>.
\<close>

type_synonym Classification = string

type_synonym IdLogicalType = string

record ComplianceDataType =
  pii :: bool
  idType :: bool
  defaultSecurityClassification :: Classification
  title :: string
  urn :: string
  supportedFieldFormats :: "IdLogicalType list"
  id' :: string
  description :: "string option"

text \<open>
  The record as the JSON object it is: its properties in the order of the interface, an
  absent \<open>description\<close> being no property. And the record that a decoded JSON value is,
  when it has the properties of the interface.
\<close>

definition json_of_ComplianceDataType :: "ComplianceDataType \<Rightarrow> json" where
  "json_of_ComplianceDataType r =
     JObject
       ([(''pii'', JBool (pii r)),
         (''idType'', JBool (idType r)),
         (''defaultSecurityClassification'', JString (defaultSecurityClassification r)),
         (''title'', JString (title r)),
         (''$URN'', JString (urn r)),
         (''supportedFieldFormats'', JArray (map JString (supportedFieldFormats r))),
         (''id'', JString (id' r))]
        @ (case description r of None \<Rightarrow> [] | Some d \<Rightarrow> [(''description'', JString d)]))"

definition bool_of :: "json option \<Rightarrow> bool option" where
  "bool_of j = (case j of Some (JBool b) \<Rightarrow> Some b | _ \<Rightarrow> None)"

definition string_of :: "json option \<Rightarrow> string option" where
  "string_of j = (case j of Some (JString s) \<Rightarrow> Some s | _ \<Rightarrow> None)"

fun strings_of_json :: "json list \<Rightarrow> string list option" where
  "strings_of_json [] = Some []"
| "strings_of_json (JString s # js) = map_option ((#) s) (strings_of_json js)"
| "strings_of_json (j # js) = None"

definition ComplianceDataType_of_json :: "json \<Rightarrow> ComplianceDataType option" where
  "ComplianceDataType_of_json j =
     (case j of
        JObject ps \<Rightarrow>
          (case (bool_of (map_of ps ''pii''), bool_of (map_of ps ''idType''),
                 string_of (map_of ps ''defaultSecurityClassification''),
                 string_of (map_of ps ''title''), string_of (map_of ps ''$URN''),
                 map_of ps ''supportedFieldFormats'', string_of (map_of ps ''id'')) of
             (Some p, Some i, Some c, Some t, Some u, Some (JArray fs), Some n) \<Rightarrow>
               (case (strings_of_json fs, map_of ps ''description'') of
                  (Some formats, None) \<Rightarrow>
                    Some \<lparr>pii = p, idType = i, defaultSecurityClassification = c, title = t,
                          urn = u, supportedFieldFormats = formats, id' = n, description = None\<rparr>
                | (Some formats, Some (JString d)) \<Rightarrow>
                    Some \<lparr>pii = p, idType = i, defaultSecurityClassification = c, title = t,
                          urn = u, supportedFieldFormats = formats, id' = n, description = Some d\<rparr>
                | _ \<Rightarrow> None)
           | _ \<Rightarrow> None)
      | _ \<Rightarrow> None)"

section \<open>The request helper (fetcher.ts)\<close>

subsection \<open>Configuration and request options\<close>

text \<open>
  \<open>FetchConfig.headers\<close> is either a plain object of string properties or an instance of
  the platform's \<open>Headers\<close> class. A \<open>Headers\<close> instance keeps its entries in an internal
  list: it has no own enumerable property.
\<close>

type_synonym Headers = "(string \<times> string) list"

datatype FetchHeaders =
    PlainHeaders "string \<rightharpoonup> string"
  | HeadersInstance Headers

text \<open>
  \<open>interface FetchConfig { url: string; headers?: ...; data?: object }\<close>. An optional
  property is an \<open>option\<close>. The operations below take any extension of the record, as
  a JavaScript function takes an object with further properties.
\<close>

record FetchConfig =
  url :: string
  headers :: "FetchHeaders option"
  data :: "object option"

datatype RequestCredentials = Omit | SameOrigin | Include

text \<open>
  \<open>interface IFetchOptions { method?; body?; headers?; credentials? }\<close>, the option bag
  handed to \<open>fetch\<close>. Its fields carry the prefix \<open>opt_\<close>, since \<open>headers\<close> names the
  field of \<open>FetchConfig\<close> already.
\<close>

record IFetchOptions =
  opt_method :: "string option"
  opt_body :: "string option"
  opt_headers :: "(string \<rightharpoonup> string) option"
  opt_credentials :: "RequestCredentials option"

text \<open>The object literal \<open>{}\<close>.\<close>

definition no_options :: IFetchOptions where
  "no_options = \<lparr>opt_method = None, opt_body = None, opt_headers = None, opt_credentials = None\<rparr>"

text \<open>
  \<open>Object.assign(target, ...sources)\<close> copies the own enumerable properties of each source
  onto the target, from left to right, and skips a source that is \<open>undefined\<close>.
\<close>

definition own_properties :: "FetchHeaders option \<Rightarrow> (string \<rightharpoonup> string)" where
  "own_properties h =
     (case h of
        None \<Rightarrow> Map.empty
      | Some (PlainHeaders m) \<Rightarrow> m
      | Some (HeadersInstance es) \<Rightarrow> Map.empty)"

definition assign_headers :: "(string \<rightharpoonup> string) \<Rightarrow> FetchHeaders option \<Rightarrow> (string \<rightharpoonup> string)" where
  "assign_headers target source = target ++ own_properties source"

definition assign_one :: "IFetchOptions \<Rightarrow> IFetchOptions option \<Rightarrow> IFetchOptions" where
  "assign_one target source =
     (case source of
        None \<Rightarrow> target
      | Some s \<Rightarrow>
          \<lparr>opt_method = (case opt_method s of Some m \<Rightarrow> Some m | None \<Rightarrow> opt_method target),
           opt_body = (case opt_body s of Some b \<Rightarrow> Some b | None \<Rightarrow> opt_body target),
           opt_headers = (case opt_headers s of Some h \<Rightarrow> Some h | None \<Rightarrow> opt_headers target),
           opt_credentials =
             (case opt_credentials s of Some c \<Rightarrow> Some c | None \<Rightarrow> opt_credentials target)\<rparr>)"

definition Object_assign :: "IFetchOptions \<Rightarrow> IFetchOptions option list \<Rightarrow> IFetchOptions" where
  "Object_assign target sources = foldl assign_one target sources"

subsection \<open>Building the request\<close>

definition baseFetchHeaders :: "string \<rightharpoonup> string" where
  "baseFetchHeaders =
     [''Accept'' \<mapsto> ''application/json'', ''Content-Type'' \<mapsto> ''application/json'']"

definition withBaseFetchHeaders :: "FetchHeaders option \<Rightarrow> IFetchOptions" where
  "withBaseFetchHeaders hs =
     no_options\<lparr>opt_headers := Some (assign_headers baseFetchHeaders hs)\<rparr>"

text \<open>
  The constant \<open>fetchConfig\<close> of each operation. \<open>config.data ? A : B\<close> and
  \<open>config.data && A\<close> test the truthiness of \<open>config.data\<close>: an object is truthy,
  \<open>undefined\<close> is not.
\<close>

definition requestBody :: "'z FetchConfig_scheme \<Rightarrow> IFetchOptions" where
  "requestBody config =
     (case data config of
        Some d \<Rightarrow> no_options\<lparr>opt_body := Some (JSON_stringify (json_of d))\<rparr>
      | None \<Rightarrow> no_options)"

definition getJSON_fetchConfig :: "'z FetchConfig_scheme \<Rightarrow> IFetchOptions" where
  "getJSON_fetchConfig config =
     (withBaseFetchHeaders (headers config))\<lparr>opt_method := Some ''GET''\<rparr>"

definition postJSON_fetchConfig :: "'z FetchConfig_scheme \<Rightarrow> IFetchOptions" where
  "postJSON_fetchConfig config =
     Object_assign (requestBody config)
       [case data config of
          Some d \<Rightarrow> Some (no_options\<lparr>opt_body := Some (JSON_stringify (json_of d))\<rparr>)
        | None \<Rightarrow> None,
        Some (withBaseFetchHeaders (headers config)),
        Some (no_options\<lparr>opt_method := Some ''POST''\<rparr>)]"

definition deleteJSON_fetchConfig :: "'z FetchConfig_scheme \<Rightarrow> IFetchOptions" where
  "deleteJSON_fetchConfig config =
     Object_assign (requestBody config)
       [Some (withBaseFetchHeaders (headers config)),
        Some (no_options\<lparr>opt_method := Some ''DELETE''\<rparr>)]"

definition putJSON_fetchConfig :: "'z FetchConfig_scheme \<Rightarrow> IFetchOptions" where
  "putJSON_fetchConfig config =
     Object_assign (requestBody config)
       [Some (withBaseFetchHeaders (headers config)),
        Some (no_options\<lparr>opt_method := Some ''PUT''\<rparr>)]"

definition getHeaders_fetchConfig :: "'z FetchConfig_scheme \<Rightarrow> IFetchOptions" where
  "getHeaders_fetchConfig config =
     (withBaseFetchHeaders (headers config))\<lparr>opt_method := Some ''HEAD''\<rparr>"

subsection \<open>Responses, failures and the calls made\<close>

text \<open>
  A pending result either resolves (\<open>Inr\<close>) or is rejected with a value (\<open>Inl\<close>). A rejection
  is an \<open>ApiError(status, message)\<close> or any other value \<open>'e\<close> a collaborator throws.
\<close>

datatype 'e rejection = ApiError int string | Thrown 'e

text \<open>
  What the helper reads of a response: \<open>ok\<close>, \<open>headers\<close>, \<open>status\<close>, and the outcome of
  decoding its body when that is asked for.
\<close>

record ('e, 'a) Response =
  ok :: bool
  res_headers :: Headers
  status :: int
  decodeBody :: "'e rejection + 'a"

text \<open>The calls an operation makes to its collaborators, in order.\<close>

datatype event = Fetch string IFetchOptions | DecodeBody

type_synonym ('e, 'a) fetch = "string \<Rightarrow> IFetchOptions \<Rightarrow> 'e rejection + ('e, 'a) Response"

text \<open>
  Modelled from the spec: \<open>throwIfApiError\<close> of \<open>wherehows-web/utils/api/errors/errors\<close>
  is not among the sources. By the specification, on a success status the helper decodes
  the body and resolves with it; on a non-success status it raises the structured API
  error of the status code and the message looked up for it.
\<close>

definition throwIfApiError ::
    "(int \<Rightarrow> string) \<Rightarrow> ('e, 'a) Response \<Rightarrow> ('e rejection + 'a) \<times> event list" where
  "throwIfApiError apiErrorStatusMessage response =
     (if ok response then (decodeBody response, [DecodeBody])
      else (Inl (ApiError (status response) (apiErrorStatusMessage (status response))), []))"

text \<open>\<open>json = (url, fetchConfig) => fetch(url, fetchConfig).then(throwIfApiError)\<close>\<close>

definition json_request ::
    "('e, 'a) fetch \<Rightarrow> (int \<Rightarrow> string) \<Rightarrow> string \<Rightarrow> IFetchOptions
       \<Rightarrow> ('e rejection + 'a) \<times> event list" where
  "json_request fetch apiErrorStatusMessage u fetchConfig =
     (case fetch u fetchConfig of
        Inl e \<Rightarrow> (Inl e, [Fetch u fetchConfig])
      | Inr response \<Rightarrow>
          (let (r, evs) = throwIfApiError apiErrorStatusMessage response
           in (r, Fetch u fetchConfig # evs)))"

definition getJSON ::
    "('e, 'a) fetch \<Rightarrow> (int \<Rightarrow> string) \<Rightarrow> 'z FetchConfig_scheme
       \<Rightarrow> ('e rejection + 'a) \<times> event list" where
  "getJSON fetch apiErrorStatusMessage config =
     json_request fetch apiErrorStatusMessage (url config) (getJSON_fetchConfig config)"

definition postJSON ::
    "('e, 'a) fetch \<Rightarrow> (int \<Rightarrow> string) \<Rightarrow> 'z FetchConfig_scheme
       \<Rightarrow> ('e rejection + 'a) \<times> event list" where
  "postJSON fetch apiErrorStatusMessage config =
     json_request fetch apiErrorStatusMessage (url config) (postJSON_fetchConfig config)"

definition deleteJSON ::
    "('e, 'a) fetch \<Rightarrow> (int \<Rightarrow> string) \<Rightarrow> 'z FetchConfig_scheme
       \<Rightarrow> ('e rejection + 'a) \<times> event list" where
  "deleteJSON fetch apiErrorStatusMessage config =
     json_request fetch apiErrorStatusMessage (url config) (deleteJSON_fetchConfig config)"

definition putJSON ::
    "('e, 'a) fetch \<Rightarrow> (int \<Rightarrow> string) \<Rightarrow> 'z FetchConfig_scheme
       \<Rightarrow> ('e rejection + 'a) \<times> event list" where
  "putJSON fetch apiErrorStatusMessage config =
     json_request fetch apiErrorStatusMessage (url config) (putJSON_fetchConfig config)"

text \<open>
  \<open>getHeaders\<close> awaits \<open>fetch\<close>, reads \<open>ok\<close>, \<open>headers\<close> and \<open>status\<close> of the response, and
  returns the headers or throws \<open>new ApiError(status, apiErrorStatusMessage(status))\<close>.
\<close>

definition getHeaders ::
    "('e, 'a) fetch \<Rightarrow> (int \<Rightarrow> string) \<Rightarrow> 'z FetchConfig_scheme
       \<Rightarrow> ('e rejection + Headers) \<times> event list" where
  "getHeaders fetch apiErrorStatusMessage config =
     (let fetchConfig = getHeaders_fetchConfig config
      in case fetch (url config) fetchConfig of
           Inl e \<Rightarrow> (Inl e, [Fetch (url config) fetchConfig])
         | Inr response \<Rightarrow>
             (if ok response then Inr (res_headers response)
              else Inl (ApiError (status response) (apiErrorStatusMessage (status response))),
              [Fetch (url config) fetchConfig]))"

text \<open>
  The requests an operation hands to \<open>fetch\<close>, in order: the URL and the option bag of
  each call.
\<close>

fun issued :: "event list \<Rightarrow> (string \<times> IFetchOptions) list" where
  "issued [] = []"
| "issued (Fetch u opts # evs) = (u, opts) # issued evs"
| "issued (DecodeBody # evs) = issued evs"

text \<open>
  Where a rejection \<open>e\<close> of an operation comes from, given what \<open>fetch\<close> returned: it is
  the rejection of \<open>fetch\<close> itself, or (for an operation that decodes the body) the
  rejection of the body decoding of a success response, or the \<open>ApiError\<close> of the status
  and its looked-up message for a non-success response.
\<close>

definition accounted ::
    "(int \<Rightarrow> string) \<Rightarrow> bool \<Rightarrow> 'e rejection + ('e, 'a) Response \<Rightarrow> 'e rejection \<Rightarrow> bool" where
  "accounted apiErrorStatusMessage decodes fetched e =
     (case fetched of
        Inl e' \<Rightarrow> e = e'
      | Inr r \<Rightarrow>
          if ok r then decodes \<and> decodeBody r = Inl e
          else e = ApiError (status r) (apiErrorStatusMessage (status r)))"

text \<open>
  Modelled from the spec: the specification's configuration record has a fourth field, the
  credentials policy. \<open>FetchConfig\<close> of fetcher.ts declares no such property; an object
  that carries one is an extension of \<open>FetchConfig\<close>.
\<close>

record FetchConfigWithCredentials = FetchConfig +
  credentialsPolicy :: "RequestCredentials option"

section \<open>The request helper on a store of objects\<close>

text \<open>
  \<open>Object.assign\<close> writes into its first argument. To see which objects an operation
  writes, the construction of the request is modelled once more on a store: a list of
  objects, an address being an index, a new object being appended. A plain object is the
  list of its properties in enumeration order; JSON data (\<open>config.data\<close>) is held as a
  value, since the helper only passes it to \<open>JSON.stringify\<close>.
\<close>

datatype val = Undefined | Str string | Data object | Ref nat

datatype cell = PlainObject "(string \<times> val) list" | HeadersObject Headers

type_synonym store = "cell list"

definition alloc :: "store \<Rightarrow> cell \<Rightarrow> nat \<times> store" where
  "alloc h c = (length h, h @ [c])"

text \<open>The own enumerable properties of the object a value refers to (none for a value
  that is no reference, and none for a \<open>Headers\<close> instance).\<close>

definition own_enumerable :: "store \<Rightarrow> val \<Rightarrow> (string \<times> val) list" where
  "own_enumerable h v =
     (case v of
        Ref s \<Rightarrow>
          (if s < length h
           then (case h ! s of PlainObject ps \<Rightarrow> ps | HeadersObject es \<Rightarrow> [])
           else [])
      | _ \<Rightarrow> [])"

definition prop_of :: "store \<Rightarrow> nat \<Rightarrow> string \<Rightarrow> val" where
  "prop_of h a k =
     (case map_of (own_enumerable h (Ref a)) k of Some v \<Rightarrow> v | None \<Rightarrow> Undefined)"

definition set_prop :: "store \<Rightarrow> nat \<Rightarrow> string \<Rightarrow> val \<Rightarrow> store" where
  "set_prop h a k v =
     (if a < length h
      then (case h ! a of
              PlainObject ps \<Rightarrow> h[a := PlainObject (AList.update k v ps)]
            | HeadersObject es \<Rightarrow> h)
      else h)"

text \<open>\<open>Object.assign(target, source)\<close> sets each own enumerable property of the source on
  the target, in order; \<open>Object.assign(target, s1, ..., sn)\<close> does so for each source.\<close>

definition assign_into :: "nat \<Rightarrow> store \<Rightarrow> val \<Rightarrow> store" where
  "assign_into t h source = fold (\<lambda>(k, v) h'. set_prop h' t k v) (own_enumerable h source) h"

definition Object_assign_store :: "store \<Rightarrow> nat \<Rightarrow> val list \<Rightarrow> store" where
  "Object_assign_store h t sources = foldl (assign_into t) h sources"

definition truthy :: "val \<Rightarrow> bool" where
  "truthy v = (case v of Undefined \<Rightarrow> False | Str s \<Rightarrow> s \<noteq> [] | Data d \<Rightarrow> True | Ref a \<Rightarrow> True)"

definition stringify_val :: "val \<Rightarrow> val" where
  "stringify_val v =
     (case v of
        Data d \<Rightarrow> Str (JSON_stringify (json_of d))
      | Str s \<Rightarrow> Str (quote s)
      | _ \<Rightarrow> Undefined)"

definition base_props :: "(string \<times> val) list" where
  "base_props =
     [(''Accept'', Str ''application/json''), (''Content-Type'', Str ''application/json'')]"

definition withBaseFetchHeaders_store :: "store \<Rightarrow> val \<Rightarrow> nat \<times> store" where
  "withBaseFetchHeaders_store h hs =
     (let (base, h1) = alloc h (PlainObject base_props)
      in alloc (Object_assign_store h1 base [hs]) (PlainObject [(''headers'', Ref base)]))"

definition requestBody_store :: "store \<Rightarrow> nat \<Rightarrow> nat \<times> store" where
  "requestBody_store h config =
     (if truthy (prop_of h config ''data'')
      then alloc h (PlainObject [(''body'', stringify_val (prop_of h config ''data''))])
      else alloc h (PlainObject []))"

text \<open>
  Each operation, up to its call of \<open>fetch\<close>: the address of \<open>fetchConfig\<close> and the store
  it leaves. The object literal \<open>{ ...w, method: 'GET' }\<close> is a new object onto which the
  properties of \<open>w\<close> are copied and \<open>method\<close> is set. After this the operations only read.
\<close>

definition getJSON_store :: "store \<Rightarrow> nat \<Rightarrow> nat \<times> store" where
  "getJSON_store h config =
     (let (fetchConfig, h1) = alloc h (PlainObject []);
          (w, h2) = withBaseFetchHeaders_store h1 (prop_of h1 config ''headers'')
      in (fetchConfig,
          set_prop (assign_into fetchConfig h2 (Ref w)) fetchConfig ''method'' (Str ''GET'')))"

definition postJSON_store :: "store \<Rightarrow> nat \<Rightarrow> nat \<times> store" where
  "postJSON_store h config =
     (let (requestBody, h1) = requestBody_store h config;
          (second, h2) =
             (if truthy (prop_of h1 config ''data'')
              then (let (b, h') = alloc h1 (PlainObject
                                     [(''body'', stringify_val (prop_of h1 config ''data''))])
                    in (Ref b, h'))
              else (prop_of h1 config ''data'', h1));
          (w, h3) = withBaseFetchHeaders_store h2 (prop_of h2 config ''headers'');
          (m, h4) = alloc h3 (PlainObject [(''method'', Str ''POST'')])
      in (requestBody, Object_assign_store h4 requestBody [second, Ref w, Ref m]))"

definition deleteJSON_store :: "store \<Rightarrow> nat \<Rightarrow> nat \<times> store" where
  "deleteJSON_store h config =
     (let (requestBody, h1) = requestBody_store h config;
          (w, h2) = withBaseFetchHeaders_store h1 (prop_of h1 config ''headers'');
          (m, h3) = alloc h2 (PlainObject [(''method'', Str ''DELETE'')])
      in (requestBody, Object_assign_store h3 requestBody [Ref w, Ref m]))"

definition putJSON_store :: "store \<Rightarrow> nat \<Rightarrow> nat \<times> store" where
  "putJSON_store h config =
     (let (requestBody, h1) = requestBody_store h config;
          (w, h2) = withBaseFetchHeaders_store h1 (prop_of h1 config ''headers'');
          (m, h3) = alloc h2 (PlainObject [(''method'', Str ''PUT'')])
      in (requestBody, Object_assign_store h3 requestBody [Ref w, Ref m]))"

definition getHeaders_store :: "store \<Rightarrow> nat \<Rightarrow> nat \<times> store" where
  "getHeaders_store h config =
     (let (fetchConfig, h1) = alloc h (PlainObject []);
          (w, h2) = withBaseFetchHeaders_store h1 (prop_of h1 config ''headers'')
      in (fetchConfig,
          set_prop (assign_into fetchConfig h2 (Ref w)) fetchConfig ''method'' (Str ''HEAD'')))"

subsection \<open>Reading the store\<close>

definition is_Str :: "val \<Rightarrow> bool" where
  "is_Str v = (case v of Str s \<Rightarrow> True | _ \<Rightarrow> False)"

definition strings_of :: "(string \<times> val) list \<Rightarrow> (string \<rightharpoonup> string)" where
  "strings_of ps k = (case map_of ps k of Some (Str s) \<Rightarrow> Some s | _ \<Rightarrow> None)"

text \<open>The \<open>FetchConfig\<close> that the object at \<open>c\<close> is, and the option bag that the object at
  \<open>f\<close> is.\<close>

definition read_config :: "store \<Rightarrow> nat \<Rightarrow> FetchConfig" where
  "read_config h c =
     \<lparr>url = (case prop_of h c ''url'' of Str u \<Rightarrow> u | _ \<Rightarrow> []),
      headers =
        (case prop_of h c ''headers'' of
           Ref a \<Rightarrow>
             (if a < length h
              then (case h ! a of
                      PlainObject ps \<Rightarrow> Some (PlainHeaders (strings_of ps))
                    | HeadersObject es \<Rightarrow> Some (HeadersInstance es))
              else None)
         | _ \<Rightarrow> None),
      data = (case prop_of h c ''data'' of Data d \<Rightarrow> Some d | _ \<Rightarrow> None)\<rparr>"

definition read_options :: "store \<Rightarrow> nat \<Rightarrow> IFetchOptions" where
  "read_options h f =
     \<lparr>opt_method = (case prop_of h f ''method'' of Str s \<Rightarrow> Some s | _ \<Rightarrow> None),
      opt_body = (case prop_of h f ''body'' of Str s \<Rightarrow> Some s | _ \<Rightarrow> None),
      opt_headers =
        (case prop_of h f ''headers'' of
           Ref a \<Rightarrow> Some (strings_of (own_enumerable h (Ref a)))
         | _ \<Rightarrow> None),
      opt_credentials =
        (case prop_of h f ''credentials'' of
           Str s \<Rightarrow> (if s = ''omit'' then Some Omit
                      else if s = ''same-origin'' then Some SameOrigin
                      else if s = ''include'' then Some Include else None)
         | _ \<Rightarrow> None)\<rparr>"

text \<open>
  The store holds a \<open>FetchConfig\<close> at \<open>c\<close>: a plain object whose \<open>headers\<close> property is
  absent, undefined, or refers to a \<open>Headers\<close> instance or to a plain object of string
  properties with distinct names, and whose \<open>data\<close> property is absent, undefined or JSON
  data.
\<close>

definition holds_config :: "store \<Rightarrow> nat \<Rightarrow> bool" where
  "holds_config h c =
     (c < length h
      \<and> (case h ! c of
            PlainObject ps \<Rightarrow>
              (case map_of ps ''headers'' of
                 None \<Rightarrow> True
               | Some Undefined \<Rightarrow> True
               | Some (Ref a) \<Rightarrow>
                   a < length h
                   \<and> (case h ! a of
                         PlainObject hs \<Rightarrow> distinct (map fst hs) \<and> list_all (is_Str \<circ> snd) hs
                       | HeadersObject es \<Rightarrow> True)
               | Some v \<Rightarrow> False)
              \<and> (case map_of ps ''data'' of
                    None \<Rightarrow> True
                  | Some Undefined \<Rightarrow> True
                  | Some (Data d) \<Rightarrow> True
                  | Some v \<Rightarrow> False)
          | HeadersObject es \<Rightarrow> False))"

definition in_store :: "store \<Rightarrow> val \<Rightarrow> bool" where
  "in_store h v = (case v of Ref a \<Rightarrow> a < length h | _ \<Rightarrow> True)"

definition assign_props ::
    "(string \<times> val) list \<Rightarrow> (string \<times> val) list \<Rightarrow> (string \<times> val) list" where
  "assign_props ps src = fold (\<lambda>(k, v). AList.update k v) src ps"

section \<open>Example inputs\<close>

definition example_config :: FetchConfig where
  "example_config = \<lparr>url = ''/api/v1/list/compliance-data-types'', headers = None, data = None\<rparr>"

definition plain_headers_config :: FetchConfig where
  "plain_headers_config =
     \<lparr>url = ''/api/v1/list/compliance-data-types'',
      headers = Some (PlainHeaders [''Content-Type'' \<mapsto> ''text/plain'']),
      data = Some (ObjectOf [(''a'', JNumber 1)])\<rparr>"

definition headers_instance_config :: FetchConfig where
  "headers_instance_config =
     \<lparr>url = ''/api/v1/list/compliance-data-types'',
      headers = Some (HeadersInstance [(''Content-Type'', ''text/plain'')]),
      data = None\<rparr>"

definition credentials_config :: FetchConfigWithCredentials where
  "credentials_config =
     \<lparr>url = ''/api/v1/list/compliance-data-types'', headers = None, data = None,
      credentialsPolicy = Some Include\<rparr>"

definition example_message :: "int \<Rightarrow> string" where
  "example_message s = (if s = 404 then ''Not Found'' else ''An error occurred'')"

definition ok_response :: "(string, json) Response" where
  "ok_response =
     \<lparr>ok = True, res_headers = [(''content-type'', ''application/json'')], status = 200,
      decodeBody = Inr (JObject [(''complianceDataTypes'', JArray [])])\<rparr>"

definition not_found_response :: "(string, json) Response" where
  "not_found_response = \<lparr>ok = False, res_headers = [], status = 404, decodeBody = Inr JNull\<rparr>"

definition ok_stub :: "(string, json) fetch" where
  "ok_stub u opts = Inr ok_response"

definition not_found_stub :: "(string, json) fetch" where
  "not_found_stub u opts = Inr not_found_response"

definition unreachable_stub :: "(string, json) fetch" where
  "unreachable_stub u opts = Inl (Thrown ''TypeError: Failed to fetch'')"

definition example_data_type :: ComplianceDataType where
  "example_data_type =
     \<lparr>pii = False, idType = False, defaultSecurityClassification = ''limitedDistribution'',
      title = ''Age'', urn = ''urn:li:complianceDataType:AGE'', supportedFieldFormats = [],
      id' = ''AGE'', description = None\<rparr>"

text \<open>A store with a configuration at address 0 whose headers object is at address 1.\<close>

definition example_store :: store where
  "example_store =
     [PlainObject [(''url'', Str ''/api/v1/list/compliance-data-types''),
                   (''headers'', Ref 1),
                   (''data'', Data (ObjectOf [(''a'', JNumber 1)]))],
      PlainObject [(''Content-Type'', Str ''text/plain'')]]"

section \<open>Properties of the JSON text\<close>

lemma table_nth:
  assumes "map f [0..<m] = map g [0..<m]" and "n < m"
  shows "f n = g n"
  using assms by simp

lemma hex_val_digit: "n < 16 \<Longrightarrow> hex_val (digit n) = Some n"
proof (rule table_nth [where m = 16])
  show "map (\<lambda>k. hex_val (digit k)) [0..<16] = map Some [0..<16]"
    by code_simp
qed

lemma is_digit_digit: "n < 10 \<Longrightarrow> is_digit (digit n)"
proof -
  have "map (\<lambda>k. is_digit (digit k)) [0..<10] = map (\<lambda>k. True) [0..<10]"
    by code_simp
  then show "n < 10 \<Longrightarrow> is_digit (digit n)"
    using table_nth [of "\<lambda>k. is_digit (digit k)" 10 "\<lambda>k. True" n] by simp
qed

lemma digit_val_digit: "n < 10 \<Longrightarrow> digit_val (digit n) = n"
proof (rule table_nth [where m = 10])
  show "map (\<lambda>k. digit_val (digit k)) [0..<10] = map (\<lambda>k. k) [0..<10]"
    by code_simp
qed

lemma digit_eq_zero: "n < 10 \<Longrightarrow> digit n = CHR ''0'' \<longleftrightarrow> n = 0"
proof -
  have "map (\<lambda>k. digit k = CHR ''0'') [0..<10] = map (\<lambda>k. k = 0) [0..<10]"
    by code_simp
  then show "n < 10 \<Longrightarrow> digit n = CHR ''0'' \<longleftrightarrow> n = 0"
    using table_nth [of "\<lambda>k. digit k = CHR ''0''" 10 "\<lambda>k. k = 0" n] by simp
qed

lemma show_nat_not_Nil: "show_nat n \<noteq> []"
  by (subst show_nat.simps) simp

lemma show_nat_digits: "list_all is_digit (show_nat n)"
proof (induction n rule: show_nat.induct)
  case (1 n)
  show ?case
    by (subst show_nat.simps) (use 1 in \<open>simp add: is_digit_digit\<close>)
qed

lemma nat_of_digits_snoc: "nat_of_digits (ds @ [c]) = 10 * nat_of_digits ds + digit_val c"
  by (simp add: nat_of_digits_def)

lemma nat_of_digits_show_nat: "nat_of_digits (show_nat n) = n"
proof (induction n rule: show_nat.induct)
  case (1 n)
  show ?case
  proof (cases "n < 10")
    case True
    then show ?thesis
      by (subst show_nat.simps) (simp add: nat_of_digits_def digit_val_digit)
  next
    case False
    then show ?thesis
      by (subst show_nat.simps) (simp add: nat_of_digits_snoc 1 digit_val_digit)
  qed
qed

lemma show_nat_leading:
  "length (show_nat n) > 1 \<Longrightarrow> hd (show_nat n) \<noteq> CHR ''0''"
proof (induction n rule: show_nat.induct)
  case (1 n)
  show ?case
  proof (cases "n < 10")
    case True
    with 1(2) show ?thesis by (subst (asm) show_nat.simps) simp
  next
    case False
    have eq: "show_nat n = show_nat (n div 10) @ [digit (n mod 10)]"
      using False by (subst show_nat.simps) simp
    show ?thesis
    proof (cases "n div 10 < 10")
      case True
      have "show_nat (n div 10) = [digit (n div 10)]"
        using True by (subst show_nat.simps) simp
      moreover have "n div 10 \<noteq> 0" using False by simp
      ultimately show ?thesis
        using True by (simp add: eq digit_eq_zero)
    next
      case F2: False
      have "length (show_nat (n div 10)) > 1"
        using F2 by (subst show_nat.simps) (simp add: show_nat_not_Nil Suc_lessI)
      with 1(1) [OF False] show ?thesis
        by (simp add: eq show_nat_not_Nil)
    qed
  qed
qed

lemma takeWhile_digits:
  "list_all is_digit ds \<Longrightarrow> delimited rest \<Longrightarrow>
   takeWhile is_digit (ds @ rest) = ds \<and> dropWhile is_digit (ds @ rest) = rest"
  by (induction ds) (auto simp add: delimited_def is_digit_def split: list.splits)

lemma parse_nat_show_nat:
  assumes "delimited rest"
  shows "parse_nat (show_nat n @ rest) = Some (n, rest)"
proof -
  note tw = takeWhile_digits [OF show_nat_digits assms, of n]
  have lead: "\<not> (length (show_nat n) > 1 \<and> hd (show_nat n) = CHR ''0'')"
    using show_nat_leading [of n] by blast
  show ?thesis
    using assms lead
    by (auto simp add: parse_nat_def tw show_nat_not_Nil nat_of_digits_show_nat Let_def
          delimited_def split: list.splits)
qed

lemma hd_show_nat: "is_digit (hd (show_nat n))"
  using show_nat_digits [of n] show_nat_not_Nil [of n]
  by (cases "show_nat n") simp_all

lemma parse_number_show_int:
  assumes "delimited rest"
  shows "parse_number (show_int i @ rest) = Some (JNumber i, rest)"
proof (cases "i < 0")
  case True
  then show ?thesis
    by (simp add: parse_number_def show_int_def parse_nat_show_nat [OF assms])
next
  case False
  obtain d ds where ds: "show_nat (nat i) = d # ds"
    using show_nat_not_Nil [of "nat i"] by (cases "show_nat (nat i)") auto
  have "is_digit d" using hd_show_nat [of "nat i"] by (simp add: ds)
  then have "d \<noteq> CHR ''-''" by (auto simp add: is_digit_def)
  moreover have "parse_nat (d # ds @ rest) = Some (nat i, rest)"
    using parse_nat_show_nat [OF assms, of "nat i"] by (simp add: ds)
  ultimately show ?thesis
    using False by (simp add: parse_number_def show_int_def ds)
qed

lemma of_char_lt_256: "(of_char c :: nat) < 256"
  by (cases c) simp

lemma control_code:
  assumes "(of_char c :: nat) < 32"
  shows "hex4 CHR ''0'' CHR ''0'' (digit (of_char c div 16)) (digit (of_char c mod 16))
         = Some (of_char c)"
proof -
  have "hex_val (digit (of_char c div 16)) = Some (of_char c div 16)"
    using assms by (intro hex_val_digit) simp
  moreover have "hex_val (digit (of_char c mod 16)) = Some (of_char c mod 16)"
    by (intro hex_val_digit) simp
  moreover have "hex_val CHR ''0'' = Some 0"
    by (simp add: hex_val_def is_digit_def)
  ultimately show ?thesis
    by (simp add: hex4_def)
qed

lemma parse_chars_escape_char:
  "parse_chars (escape_char c @ t) = cons_char c (parse_chars t)"
proof -
  consider (named) "c \<in> {CHR 0x22, CHR 0x5C, CHR 0x08, CHR 0x0C, CHR 0x0A, CHR 0x0D, CHR 0x09}"
    | (control) "c \<notin> {CHR 0x22, CHR 0x5C, CHR 0x08, CHR 0x0C, CHR 0x0A, CHR 0x0D, CHR 0x09}"
        "(of_char c :: nat) < 32"
    | (plain) "c \<notin> {CHR 0x22, CHR 0x5C, CHR 0x08, CHR 0x0C, CHR 0x0A, CHR 0x0D, CHR 0x09}"
        "\<not> (of_char c :: nat) < 32"
    by blast
  then show ?thesis
  proof cases
    case named
    then show ?thesis
      by (auto simp add: escape_char_def unescape_def)
  next
    case control
    then show ?thesis
      by (simp add: escape_char_def control_code)
  next
    case plain
    then show ?thesis
      by (simp add: escape_char_def)
  qed
qed

lemma parse_chars_escaped:
  "parse_chars (concat (map escape_char s) @ CHR 0x22 # rest) = Some (s, rest)"
  by (induction s) (simp_all add: parse_chars_escape_char cons_char_def)

lemma parse_chars_quote_tail:
  "parse_chars (tl (quote s) @ rest) = Some (s, rest)"
  by (simp add: quote_def parse_chars_escaped)

lemma stringify_start: "\<exists>c cs. JSON_stringify j = c # cs \<and> value_start c"
proof (cases j)
  case (JNumber i)
  obtain d ds where ds: "show_nat (nat i) = d # ds"
    using show_nat_not_Nil [of "nat i"] by (cases "show_nat (nat i)") auto
  have "is_digit d" using hd_show_nat [of "nat i"] by (simp add: ds)
  then show ?thesis
    by (auto simp add: JNumber show_int_def ds value_start_def is_digit_def)
qed (auto simp add: value_start_def quote_def)

lemma skip_ws_start: "value_start c \<Longrightarrow> skip_ws (c # cs) = c # cs"
  by (auto simp add: value_start_def skip_ws_def is_ws_def)

lemma skip_ws_stringify: "skip_ws (JSON_stringify j @ rest) = JSON_stringify j @ rest"
  using stringify_start [of j] by (auto simp add: skip_ws_start)

lemma join_Cons: "join sep (x # xs) = (if xs = [] then x else x @ sep @ join sep xs)"
  by (cases xs) simp_all

lemma skip_ws_punct [simp]:
  "skip_ws (CHR '','' # r) = CHR '','' # r"
  "skip_ws (CHR '']'' # r) = CHR '']'' # r"
  "skip_ws (CHR ''}'' # r) = CHR ''}'' # r"
  "skip_ws (CHR '':'' # r) = CHR '':'' # r"
  "skip_ws (CHR ''['' # r) = CHR ''['' # r"
  "skip_ws (CHR ''{'' # r) = CHR ''{'' # r"
  "skip_ws (CHR 0x22 # r) = CHR 0x22 # r"
  "skip_ws [] = []"
  by (simp_all add: skip_ws_def is_ws_def)

lemma delimited_punct [simp]:
  "delimited (CHR '','' # r)" "delimited (CHR '']'' # r)" "delimited (CHR ''}'' # r)" "delimited []"
  by (simp_all add: delimited_def)

lemma parse_elements_stringify:
  assumes "\<And>x n rest. x \<in> set xs \<Longrightarrow> need x \<le> n \<Longrightarrow> delimited rest \<Longrightarrow>
             parse_value n (JSON_stringify x @ rest) = Some (x, rest)"
    and "xs \<noteq> []"
    and "sum_list (map (\<lambda>x. Suc (need x)) xs) \<le> n"
  shows "parse_elements n (join '','' (map JSON_stringify xs) @ CHR '']'' # rest) = Some (xs, rest)"
  using assms
proof (induction xs arbitrary: n)
  case Nil
  then show ?case by simp
next
  case (Cons x xs)
  obtain m where n: "n = Suc m" and m: "need x + sum_list (map (\<lambda>x. Suc (need x)) xs) \<le> m"
    using Cons.prems(3) by (cases n) auto
  show ?case
  proof (cases "xs = []")
    case True
    have "parse_value m (JSON_stringify x @ CHR '']'' # rest) = Some (x, CHR '']'' # rest)"
      using m by (intro Cons.prems(1)) simp_all
    then show ?thesis
      by (simp add: n True)
  next
    case False
    let ?tail = "join '','' (map JSON_stringify xs) @ CHR '']'' # rest"
    have head: "parse_value m (JSON_stringify x @ CHR '','' # ?tail) = Some (x, CHR '','' # ?tail)"
      using m by (intro Cons.prems(1)) simp_all
    have tail: "parse_elements m ?tail = Some (xs, rest)"
      using m False by (intro Cons.IH Cons.prems(1)) simp_all
    show ?thesis
      using False by (simp add: n join_Cons head tail)
  qed
qed

lemma parse_members_stringify:
  assumes "\<And>k v n rest. (k, v) \<in> set kvs \<Longrightarrow> need v \<le> n \<Longrightarrow> delimited rest \<Longrightarrow>
             parse_value n (JSON_stringify v @ rest) = Some (v, rest)"
    and "kvs \<noteq> []"
    and "sum_list (map (\<lambda>(k, v). Suc (need v)) kvs) \<le> n"
  shows "parse_members n (join '','' (map member_text kvs) @ CHR ''}'' # rest) acc
         = Some (fold (\<lambda>(k, v). AList.update k v) kvs acc, rest)"
  using assms
proof (induction kvs arbitrary: n acc)
  case Nil
  then show ?case by simp
next
  case (Cons kv kvs)
  obtain k v where kv: "kv = (k, v)" by (cases kv)
  obtain m where n: "n = Suc m" and m: "need v + sum_list (map (\<lambda>(k, v). Suc (need v)) kvs) \<le> m"
    using Cons.prems(3) by (cases n) (auto simp add: kv)
  have key: "\<And>t. parse_chars (concat (map escape_char k) @ CHR 0x22 # t) = Some (k, t)"
    by (rule parse_chars_escaped)
  have mt: "member_text (k, v)
                = CHR 0x22 # concat (map escape_char k) @ CHR 0x22 # CHR '':'' # JSON_stringify v"
    by (simp add: member_text_def quote_def)
  show ?case
  proof (cases "kvs = []")
    case True
    have "parse_value m (JSON_stringify v @ CHR ''}'' # rest) = Some (v, CHR ''}'' # rest)"
      using m by (intro Cons.prems(1) [of k]) (simp_all add: kv)
    then show ?thesis
      by (simp add: n True kv mt key)
  next
    case False
    let ?tail = "join '','' (map member_text kvs) @ CHR ''}'' # rest"
    have head: "parse_value m (JSON_stringify v @ CHR '','' # ?tail) = Some (v, CHR '','' # ?tail)"
      using m by (intro Cons.prems(1) [of k]) (simp_all add: kv)
    have "sum_list (map (\<lambda>(k, v). Suc (need v)) kvs) \<le> m"
      using m by simp
    moreover have "parse_value n' (JSON_stringify v' @ rest') = Some (v', rest')"
      if "(k', v') \<in> set kvs" "need v' \<le> n'" "delimited rest'" for k' v' n' rest'
      using that Cons.prems(1) [of k' v' n' rest'] by simp
    ultimately have tail: "parse_members m ?tail (AList.update k v acc)
                = Some (fold (\<lambda>(k, v). AList.update k v) kvs (AList.update k v acc), rest)"
      using False by (intro Cons.IH)
    show ?thesis
      using False by (simp add: n join_Cons kv mt key head tail)
  qed
qed

lemma fold_update_distinct:
  "distinct (map fst (acc @ kvs)) \<Longrightarrow> fold (\<lambda>(k, v). AList.update k v) kvs acc = acc @ kvs"
proof (induction kvs arbitrary: acc)
  case Nil
  then show ?case by simp
next
  case (Cons kv kvs)
  obtain k v where kv: "kv = (k, v)" by (cases kv)
  have "k \<notin> fst ` set acc" using Cons.prems by (auto simp add: kv)
  then have upd: "AList.update k v acc = acc @ [(k, v)]"
    by (induction acc) auto
  show ?case
    using Cons.IH [of "acc @ [(k, v)]"] Cons.prems by (simp add: kv upd)
qed

lemma stringify_JObject:
  "JSON_stringify (JObject kvs) = CHR ''{'' # join '','' (map member_text kvs) @ ''}''"
proof -
  have "(\<lambda>(k, v). quote k @ '':'' @ JSON_stringify v) = member_text"
    by (auto simp add: member_text_def fun_eq_iff)
  then show ?thesis by simp
qed

lemma member_text_start: "\<exists>cs. member_text kv = CHR 0x22 # cs"
  by (simp add: member_text_def quote_def)

lemma join_start:
  assumes "xs \<noteq> []" and "\<And>x. x \<in> set xs \<Longrightarrow> \<exists>c cs. f x = c # cs \<and> P c"
  shows "\<exists>c cs. join sep (map f xs) @ rest = c # cs \<and> P c"
proof -
  obtain x xs' where xs: "xs = x # xs'" using assms(1) by (cases xs) auto
  obtain c cs where "f x = c # cs" "P c" using assms(2) [of x] by (auto simp add: xs)
  then show ?thesis by (auto simp add: xs join_Cons)
qed

lemma parse_value_stringify:
  "need j \<le> n \<Longrightarrow> wf_json j \<Longrightarrow> delimited rest \<Longrightarrow>
   parse_value n (JSON_stringify j @ rest) = Some (j, rest)"
proof (induction j arbitrary: n rest)
  case JNull
  then obtain m where "n = Suc m" by (cases n) auto
  then show ?case by (simp add: skip_ws_def is_ws_def strip_prefix_def)
next
  case (JBool b)
  then obtain m where "n = Suc m" by (cases n) auto
  then show ?case by (simp add: skip_ws_def is_ws_def strip_prefix_def)
next
  case (JNumber i)
  then obtain m where n: "n = Suc m" by (cases n) auto
  obtain c cs where c: "JSON_stringify (JNumber i) = c # cs" "value_start c"
    using stringify_start by blast
  have num: "parse_number (c # cs @ rest) = Some (JNumber i, rest)"
    using parse_number_show_int [OF JNumber.prems(3), of i] c(1) by simp
  have nd: "c \<noteq> CHR 0x22 \<and> c \<noteq> CHR ''['' \<and> c \<noteq> CHR ''{'' \<and> c \<noteq> CHR ''n'' \<and> c \<noteq> CHR ''t''
            \<and> c \<noteq> CHR ''f''"
  proof -
    obtain d ds where ds: "show_nat (nat i) = d # ds"
      using show_nat_not_Nil [of "nat i"] by (cases "show_nat (nat i)") auto
    have "is_digit d" using hd_show_nat [of "nat i"] by (simp add: ds)
    then show ?thesis
      using c(1) by (auto simp add: show_int_def ds is_digit_def split: if_splits)
  qed
  show ?case
    using c(1) nd num by (simp add: n skip_ws_start [OF c(2)] del: JSON_stringify.simps)
next
  case (JString str)
  then obtain m where "n = Suc m" by (cases n) auto
  then show ?case by (simp add: quote_def parse_chars_escaped)
next
  case (JArray xs)
  then obtain m where n: "n = Suc m" and m: "sum_list (map (\<lambda>x. Suc (need x)) xs) \<le> m"
    by (cases n) auto
  show ?case
  proof (cases "xs = []")
    case True
    then show ?thesis by (simp add: n)
  next
    case False
    have ih: "parse_value n' (JSON_stringify x @ rest') = Some (x, rest')"
      if "x \<in> set xs" "need x \<le> n'" "delimited rest'" for x n' rest'
      using that JArray.IH [of x n' rest'] JArray.prems(2) by (simp add: list_all_iff)
    have elems: "parse_elements m (join '','' (map JSON_stringify xs) @ CHR '']'' # rest)
                 = Some (xs, rest)"
      using ih False m by (rule parse_elements_stringify)
    obtain c cs where c: "join '','' (map JSON_stringify xs) @ CHR '']'' # rest = c # cs"
        "value_start c"
      using join_start [OF False, of JSON_stringify value_start] stringify_start by blast
    have "c \<noteq> CHR '']''" using c(2) by (auto simp add: value_start_def)
    then show ?thesis
      using elems by (simp add: n c(1) skip_ws_start [OF c(2)])
  qed
next
  case (JObject kvs)
  then obtain m where n: "n = Suc m" and m: "sum_list (map (\<lambda>(k, v). Suc (need v)) kvs) \<le> m"
    by (cases n) auto
  show ?case
  proof (cases "kvs = []")
    case True
    then show ?thesis by (simp add: n)
  next
    case False
    have ih: "parse_value n' (JSON_stringify v @ rest') = Some (v, rest')"
      if "(k, v) \<in> set kvs" "need v \<le> n'" "delimited rest'" for k v n' rest'
      using that JObject.IH [of "(k, v)" v n' rest'] JObject.prems(2)
      by (auto simp add: list_all_iff)
    have "parse_members m (join '','' (map member_text kvs) @ CHR ''}'' # rest) []
            = Some (fold (\<lambda>(k, v). AList.update k v) kvs [], rest)"
      using ih False m by (rule parse_members_stringify)
    moreover have "fold (\<lambda>(k, v). AList.update k v) kvs [] = kvs"
      using fold_update_distinct [of "[]" kvs] JObject.prems(2) by simp
    ultimately have members:
      "parse_members m (join '','' (map member_text kvs) @ CHR ''}'' # rest) [] = Some (kvs, rest)"
      by simp
    obtain c cs where c: "join '','' (map member_text kvs) @ CHR ''}'' # rest = c # cs"
        "c = CHR 0x22"
      using join_start [OF False, of member_text "\<lambda>c. c = CHR 0x22"] member_text_start by blast
    show ?thesis
      using members by (simp add: n stringify_JObject c del: JSON_stringify.simps)
  qed
qed

lemma length_join: "sum_list (map (\<lambda>t. Suc (length t)) ts) \<le> Suc (length (join '','' ts))"
  by (induction ts) (simp_all add: join_Cons)

lemma show_int_not_Nil: "show_int i \<noteq> []"
  by (simp add: show_int_def show_nat_not_Nil)

lemma need_le_length: "need j \<le> length (JSON_stringify j)"
proof (induction j)
  case (JNumber i)
  then show ?case
    using show_int_not_Nil [of i] by (cases "show_int i") simp_all
next
  case (JArray xs)
  have "sum_list (map (\<lambda>x. Suc (need x)) xs)
          \<le> sum_list (map (\<lambda>t. Suc (length t)) (map JSON_stringify xs))"
    unfolding map_map comp_def by (rule sum_list_mono) (simp add: JArray.IH)
  also have "\<dots> \<le> Suc (length (join '','' (map JSON_stringify xs)))"
    by (rule length_join)
  finally show ?case by simp
next
  case (JObject kvs)
  have "sum_list (map (\<lambda>(k, v). Suc (need v)) kvs)
          \<le> sum_list (map (\<lambda>t. Suc (length t)) (map member_text kvs))"
    unfolding map_map comp_def
  proof (rule sum_list_mono)
    fix kv assume mem: "kv \<in> set kvs"
    obtain k v where kv: "kv = (k, v)" by (cases kv)
    have "need v \<le> length (JSON_stringify v)"
      using JObject.IH [of "(k, v)" v] mem by (simp add: kv)
    then show "(case kv of (k, v) \<Rightarrow> Suc (need v)) \<le> Suc (length (member_text kv))"
      by (simp add: kv member_text_def)
  qed
  also have "\<dots> \<le> Suc (length (join '','' (map member_text kvs)))"
    by (rule length_join)
  finally show ?case by (simp add: stringify_JObject del: JSON_stringify.simps)
qed (simp_all add: quote_def)

lemma JSON_parse_stringify: "wf_json j \<Longrightarrow> JSON_parse (JSON_stringify j) = Some j"
  using parse_value_stringify [OF need_le_length, of j "[]"]
  by (simp add: JSON_parse_def)

lemma strings_of_json_map: "strings_of_json (map JString ss) = Some ss"
  by (induction ss) simp_all

lemma wf_json_ComplianceDataType: "wf_json (json_of_ComplianceDataType r)"
  by (cases "description r") (simp_all add: json_of_ComplianceDataType_def list_all_iff)

lemma ComplianceDataType_of_json_of: "ComplianceDataType_of_json (json_of_ComplianceDataType r) = Some r"
  by (cases "description r")
    (simp_all add: json_of_ComplianceDataType_def ComplianceDataType_of_json_def bool_of_def
       string_of_def strings_of_json_map)

text \<open>
  Claim C7. Serializing a compliance data type to JSON text and decoding the text gives
  the record back, equal in every field: for every record, hence also for one whose
  \<open>supportedFieldFormats\<close> is empty and whose \<open>idType\<close> is false.
\<close>

theorem ComplianceDataType_round_trip:
  "Option.bind (JSON_parse (JSON_stringify (json_of_ComplianceDataType r))) ComplianceDataType_of_json
     = Some r"
  by (simp add: JSON_parse_stringify wf_json_ComplianceDataType ComplianceDataType_of_json_of)

text \<open>The text of a record with \<open>idType\<close> false and no supported field formats.\<close>

lemma example_data_type_text:
  \<open>JSON_stringify (json_of_ComplianceDataType example_data_type) =
     ''{"pii":false,"idType":false,"defaultSecurityClassification":"limitedDistribution","title":"Age","$URN":"urn:li:complianceDataType:AGE","supportedFieldFormats":[],"id":"AGE"}''\<close>
  by (simp add: json_of_ComplianceDataType_def example_data_type_def quote_def escape_char_def)

section \<open>Properties of the request helper\<close>

subsection \<open>Requests and results\<close>

lemma issued_json_request:
  "issued (snd (json_request fetch msg u fc)) = [(u, fc)]"
  by (simp add: json_request_def throwIfApiError_def split: sum.split)

lemma issued_getHeaders:
  "issued (snd (getHeaders fetch msg c)) = [(url c, getHeaders_fetchConfig c)]"
  by (simp add: getHeaders_def Let_def split: sum.split)

lemma json_request_not_ok:
  "fetch u fc = Inr r \<Longrightarrow> \<not> ok r \<Longrightarrow>
   fst (json_request fetch msg u fc) = Inl (ApiError (status r) (msg (status r)))"
  by (simp add: json_request_def throwIfApiError_def)

lemma json_request_accounted:
  "fst (json_request fetch msg u fc) = Inl e \<Longrightarrow> accounted msg True (fetch u fc) e"
  by (auto simp add: json_request_def throwIfApiError_def accounted_def split: sum.splits if_splits)

lemma getHeaders_not_ok:
  "fetch (url c) (getHeaders_fetchConfig c) = Inr r \<Longrightarrow> \<not> ok r \<Longrightarrow>
   fst (getHeaders fetch msg c) = Inl (ApiError (status r) (msg (status r)))"
  by (simp add: getHeaders_def)

lemma getHeaders_accounted:
  "fst (getHeaders fetch msg c) = Inl e \<Longrightarrow>
   accounted msg False (fetch (url c) (getHeaders_fetchConfig c)) e"
  by (auto simp add: getHeaders_def accounted_def Let_def split: sum.splits if_splits)

lemmas fetchConfig_defs =
  getJSON_fetchConfig_def postJSON_fetchConfig_def deleteJSON_fetchConfig_def
  putJSON_fetchConfig_def getHeaders_fetchConfig_def requestBody_def withBaseFetchHeaders_def
  Object_assign_def assign_one_def no_options_def

lemma issued_getJSON: "issued (snd (getJSON fetch msg c)) = [(url c, getJSON_fetchConfig c)]"
  by (simp add: getJSON_def issued_json_request)
lemma issued_postJSON: "issued (snd (postJSON fetch msg c)) = [(url c, postJSON_fetchConfig c)]"
  by (simp add: postJSON_def issued_json_request)
lemma issued_deleteJSON: "issued (snd (deleteJSON fetch msg c)) = [(url c, deleteJSON_fetchConfig c)]"
  by (simp add: deleteJSON_def issued_json_request)
lemma issued_putJSON: "issued (snd (putJSON fetch msg c)) = [(url c, putJSON_fetchConfig c)]"
  by (simp add: putJSON_def issued_json_request)

lemmas issued_simps = issued_getJSON issued_postJSON issued_deleteJSON issued_putJSON issued_getHeaders

lemma opt_headers_fetchConfig:
  "opt_headers (getJSON_fetchConfig c) = Some (assign_headers baseFetchHeaders (headers c))"
  "opt_headers (postJSON_fetchConfig c) = Some (assign_headers baseFetchHeaders (headers c))"
  "opt_headers (deleteJSON_fetchConfig c) = Some (assign_headers baseFetchHeaders (headers c))"
  "opt_headers (putJSON_fetchConfig c) = Some (assign_headers baseFetchHeaders (headers c))"
  "opt_headers (getHeaders_fetchConfig c) = Some (assign_headers baseFetchHeaders (headers c))"
  by (simp_all add: fetchConfig_defs split: option.split)

lemma opt_body_fetchConfig:
  "opt_body (getJSON_fetchConfig c) = None"
  "opt_body (postJSON_fetchConfig c) = map_option (\<lambda>d. JSON_stringify (json_of d)) (data c)"
  "opt_body (deleteJSON_fetchConfig c) = map_option (\<lambda>d. JSON_stringify (json_of d)) (data c)"
  "opt_body (putJSON_fetchConfig c) = map_option (\<lambda>d. JSON_stringify (json_of d)) (data c)"
  "opt_body (getHeaders_fetchConfig c) = None"
  by (simp_all add: fetchConfig_defs split: option.split)

lemma opt_method_fetchConfig:
  "opt_method (getJSON_fetchConfig c) = Some ''GET''"
  "opt_method (postJSON_fetchConfig c) = Some ''POST''"
  "opt_method (deleteJSON_fetchConfig c) = Some ''DELETE''"
  "opt_method (putJSON_fetchConfig c) = Some ''PUT''"
  "opt_method (getHeaders_fetchConfig c) = Some ''HEAD''"
  by (simp_all add: fetchConfig_defs split: option.split)

lemma opt_credentials_fetchConfig:
  "opt_credentials (getJSON_fetchConfig c) = None"
  "opt_credentials (postJSON_fetchConfig c) = None"
  "opt_credentials (deleteJSON_fetchConfig c) = None"
  "opt_credentials (putJSON_fetchConfig c) = None"
  "opt_credentials (getHeaders_fetchConfig c) = None"
  by (simp_all add: fetchConfig_defs split: option.split)

lemma plain_headers_merged:
  assumes "headers c = None \<and> m = Map.empty \<or> headers c = Some (PlainHeaders m)"
  shows "map (opt_headers \<circ> snd) (issued (snd (getJSON fetch msg c))) = [Some (baseFetchHeaders ++ m)]"
    and "map (opt_headers \<circ> snd) (issued (snd (postJSON fetch msg c))) = [Some (baseFetchHeaders ++ m)]"
    and "map (opt_headers \<circ> snd) (issued (snd (deleteJSON fetch msg c))) = [Some (baseFetchHeaders ++ m)]"
    and "map (opt_headers \<circ> snd) (issued (snd (putJSON fetch msg c))) = [Some (baseFetchHeaders ++ m)]"
    and "map (opt_headers \<circ> snd) (issued (snd (getHeaders fetch msg c))) = [Some (baseFetchHeaders ++ m)]"
  using assms
  by (auto simp add: issued_simps opt_headers_fetchConfig assign_headers_def own_properties_def)

text \<open>
  Claim C1. Whenever \<open>fetch\<close> resolves with a response whose \<open>ok\<close> flag is false, each of
  \<open>getJSON\<close>, \<open>postJSON\<close>, \<open>deleteJSON\<close>, \<open>putJSON\<close> and \<open>getHeaders\<close> is rejected with
  the \<open>ApiError\<close> of the response's status and of the message looked up for that status.
  No other rejection is made by this layer: every rejection of an operation is the
  rejection of \<open>fetch\<close>, the rejection of the body decoding, or that \<open>ApiError\<close>.
\<close>

theorem non_success_status_is_ApiError:
  "(fetch (url c) (getJSON_fetchConfig c) = Inr r \<and> \<not> ok r \<longrightarrow>
      fst (getJSON fetch msg c) = Inl (ApiError (status r) (msg (status r))))
   \<and> (fetch (url c) (postJSON_fetchConfig c) = Inr r \<and> \<not> ok r \<longrightarrow>
        fst (postJSON fetch msg c) = Inl (ApiError (status r) (msg (status r))))
   \<and> (fetch (url c) (deleteJSON_fetchConfig c) = Inr r \<and> \<not> ok r \<longrightarrow>
        fst (deleteJSON fetch msg c) = Inl (ApiError (status r) (msg (status r))))
   \<and> (fetch (url c) (putJSON_fetchConfig c) = Inr r \<and> \<not> ok r \<longrightarrow>
        fst (putJSON fetch msg c) = Inl (ApiError (status r) (msg (status r))))
   \<and> (fetch (url c) (getHeaders_fetchConfig c) = Inr r \<and> \<not> ok r \<longrightarrow>
        fst (getHeaders fetch msg c) = Inl (ApiError (status r) (msg (status r))))
   \<and> (fst (getJSON fetch msg c) = Inl e \<longrightarrow>
        accounted msg True (fetch (url c) (getJSON_fetchConfig c)) e)
   \<and> (fst (postJSON fetch msg c) = Inl e \<longrightarrow>
        accounted msg True (fetch (url c) (postJSON_fetchConfig c)) e)
   \<and> (fst (deleteJSON fetch msg c) = Inl e \<longrightarrow>
        accounted msg True (fetch (url c) (deleteJSON_fetchConfig c)) e)
   \<and> (fst (putJSON fetch msg c) = Inl e \<longrightarrow>
        accounted msg True (fetch (url c) (putJSON_fetchConfig c)) e)
   \<and> (fst (getHeaders fetch msg c) = Inl e \<longrightarrow>
        accounted msg False (fetch (url c) (getHeaders_fetchConfig c)) e)"
  by (simp add: getJSON_def postJSON_def deleteJSON_def putJSON_def
        json_request_not_ok json_request_accounted getHeaders_not_ok getHeaders_accounted)

theorem non_success_status_is_ApiError_witness:
  "not_found_stub (url example_config) (getJSON_fetchConfig example_config) = Inr not_found_response
   \<and> \<not> ok not_found_response
   \<and> fst (getJSON not_found_stub example_message example_config) = Inl (ApiError 404 ''Not Found'')
   \<and> fst (postJSON not_found_stub example_message example_config) = Inl (ApiError 404 ''Not Found'')
   \<and> fst (deleteJSON not_found_stub example_message example_config) = Inl (ApiError 404 ''Not Found'')
   \<and> fst (putJSON not_found_stub example_message example_config) = Inl (ApiError 404 ''Not Found'')
   \<and> fst (getHeaders not_found_stub example_message example_config) = Inl (ApiError 404 ''Not Found'')
   \<and> accounted example_message True
        (not_found_stub (url example_config) (getJSON_fetchConfig example_config))
        (ApiError 404 ''Not Found'')
   \<and> accounted example_message False
        (not_found_stub (url example_config) (getHeaders_fetchConfig example_config))
        (ApiError 404 ''Not Found'')"
  using non_success_status_is_ApiError
    [of not_found_stub example_config not_found_response example_message "ApiError 404 ''Not Found''"]
  by (simp add: not_found_response_def not_found_stub_def example_message_def)

text \<open>
  Claim C2. Every request carries \<open>Accept: application/json\<close> and
  \<open>Content-Type: application/json\<close> unless the caller sets the same name, and a header the
  caller supplies appears with the caller's value. For headers given as a plain object
  (or not given) this is \<open>plain_headers_merged\<close>. For headers given as a \<open>Headers\<close>
  instance, which \<open>FetchConfig\<close> admits, it fails: the caller sets \<open>Content-Type:
  text/plain\<close> and the request of \<open>getJSON\<close> carries \<open>Content-Type: application/json\<close>.
\<close>

theorem Headers_instance_override_lost:
  "headers headers_instance_config = Some (HeadersInstance [(''Content-Type'', ''text/plain'')])
   \<and> map (\<lambda>(u, opts). map_option (\<lambda>h. h ''Content-Type'') (opt_headers opts))
        (issued (snd (getJSON ok_stub example_message headers_instance_config)))
       = [Some (Some ''application/json'')]"
  by (simp add: issued_simps opt_headers_fetchConfig assign_headers_def own_properties_def
        headers_instance_config_def baseFetchHeaders_def)

text \<open>
  Claim C3. Each of \<open>postJSON\<close>, \<open>deleteJSON\<close> and \<open>putJSON\<close> issues one request, with
  method POST, DELETE and PUT; its body is the JSON text of \<open>config.data\<close> when the
  configuration has data, and it has no body property when the configuration has none.
\<close>

theorem body_is_serialized_data:
  "map (opt_body \<circ> snd) (issued (snd (postJSON fetch msg c)))
     = [case data c of None \<Rightarrow> None | Some d \<Rightarrow> Some (JSON_stringify (json_of d))]
   \<and> map (opt_body \<circ> snd) (issued (snd (deleteJSON fetch msg c)))
     = [case data c of None \<Rightarrow> None | Some d \<Rightarrow> Some (JSON_stringify (json_of d))]
   \<and> map (opt_body \<circ> snd) (issued (snd (putJSON fetch msg c)))
     = [case data c of None \<Rightarrow> None | Some d \<Rightarrow> Some (JSON_stringify (json_of d))]
   \<and> map (opt_method \<circ> snd) (issued (snd (postJSON fetch msg c))) = [Some ''POST'']
   \<and> map (opt_method \<circ> snd) (issued (snd (deleteJSON fetch msg c))) = [Some ''DELETE'']
   \<and> map (opt_method \<circ> snd) (issued (snd (putJSON fetch msg c))) = [Some ''PUT'']"
  by (simp add: issued_simps opt_body_fetchConfig opt_method_fetchConfig split: option.split)

text \<open>With \<open>data = {a: 1}\<close> the body of a DELETE request is the text \<open>{"a":1}\<close>.\<close>

lemma body_example:
  \<open>map (opt_body \<circ> snd) (issued (snd (deleteJSON ok_stub example_message plain_headers_config)))
     = [Some ''{"a":1}'']\<close>
  by (simp add: issued_simps opt_body_fetchConfig plain_headers_config_def quote_def
        escape_char_def show_int_def show_nat.simps digit_def)

text \<open>
  Claim C4. \<open>getHeaders\<close> issues one request, with method HEAD, and calls nothing else: it
  never decodes a body, and what it returns does not depend on what decoding the body
  would give. When the response's \<open>ok\<close> flag is true it resolves with the response's
  headers; when the flag is false it is rejected with the \<open>ApiError\<close> of the status and of
  the message looked up for it.
\<close>

theorem getHeaders_reads_no_body:
  "map (opt_method \<circ> snd) (issued (snd (getHeaders fetch msg c))) = [Some ''HEAD'']
   \<and> snd (getHeaders fetch msg c) = [Fetch (url c) (getHeaders_fetchConfig c)]
   \<and> DecodeBody \<notin> set (snd (getHeaders fetch msg c))
   \<and> (fetch (url c) (getHeaders_fetchConfig c) = Inr r \<and> ok r \<longrightarrow>
        fst (getHeaders fetch msg c) = Inr (res_headers r))
   \<and> (fetch (url c) (getHeaders_fetchConfig c) = Inr r \<and> \<not> ok r \<longrightarrow>
        fst (getHeaders fetch msg c) = Inl (ApiError (status r) (msg (status r))))
   \<and> getHeaders (\<lambda>u opts. Inr (r\<lparr>decodeBody := d\<rparr>)) msg c = getHeaders (\<lambda>u opts. Inr r) msg c"
  by (simp add: issued_simps opt_method_fetchConfig) (simp add: getHeaders_def Let_def split: sum.split)

theorem getHeaders_reads_no_body_witness:
  "ok_stub (url example_config) (getHeaders_fetchConfig example_config) = Inr ok_response
   \<and> ok ok_response
   \<and> fst (getHeaders ok_stub example_message example_config)
       = Inr [(''content-type'', ''application/json'')]
   \<and> not_found_stub (url example_config) (getHeaders_fetchConfig example_config)
       = Inr not_found_response
   \<and> \<not> ok not_found_response
   \<and> fst (getHeaders not_found_stub example_message example_config)
       = Inl (ApiError 404 ''Not Found'')
   \<and> DecodeBody \<notin> set (snd (getHeaders ok_stub example_message example_config))"
  using getHeaders_reads_no_body [of ok_stub example_message example_config ok_response]
    getHeaders_reads_no_body [of not_found_stub example_message example_config not_found_response]
  by (simp add: ok_stub_def ok_response_def not_found_stub_def not_found_response_def
        example_message_def)

text \<open>
  Claim C5 says that a credentials policy set on the configuration is forwarded to
  \<open>fetch\<close>. It is not: for a configuration with the policy \<open>include\<close>, the request of
  \<open>getJSON\<close> has no credentials property.
\<close>

theorem credentials_not_forwarded_counterexample:
  "credentialsPolicy credentials_config = Some Include
   \<and> map (opt_credentials \<circ> snd) (issued (snd (getJSON ok_stub example_message credentials_config)))
       = [None]"
  by (simp add: issued_simps opt_credentials_fetchConfig credentials_config_def)

text \<open>
  Claim C5, amended. \<open>FetchConfig\<close> has no credentials property and no operation reads
  one: for every configuration, whatever further fields it carries, the request each of
  the five operations issues has no credentials property.
\<close>

theorem no_credentials_in_request:
  "map (opt_credentials \<circ> snd) (issued (snd (getJSON fetch msg c))) = [None]
   \<and> map (opt_credentials \<circ> snd) (issued (snd (postJSON fetch msg c))) = [None]
   \<and> map (opt_credentials \<circ> snd) (issued (snd (deleteJSON fetch msg c))) = [None]
   \<and> map (opt_credentials \<circ> snd) (issued (snd (putJSON fetch msg c))) = [None]
   \<and> map (opt_credentials \<circ> snd) (issued (snd (getHeaders fetch msg c))) = [None]"
  by (simp add: issued_simps opt_credentials_fetchConfig)

lemma json_request_rejected:
  "fetch u fc = Inl e \<Longrightarrow> json_request fetch msg u fc = (Inl e, [Fetch u fc])"
  by (simp add: json_request_def)

text \<open>
  Claim C6. When \<open>fetch\<close> itself is rejected with a value \<open>e\<close>, each of the five operations
  is rejected with that same value \<open>e\<close>.
\<close>

theorem transport_failure_unchanged:
  "(fetch (url c) (getJSON_fetchConfig c) = Inl e \<longrightarrow> fst (getJSON fetch msg c) = Inl e)
   \<and> (fetch (url c) (postJSON_fetchConfig c) = Inl e \<longrightarrow> fst (postJSON fetch msg c) = Inl e)
   \<and> (fetch (url c) (deleteJSON_fetchConfig c) = Inl e \<longrightarrow> fst (deleteJSON fetch msg c) = Inl e)
   \<and> (fetch (url c) (putJSON_fetchConfig c) = Inl e \<longrightarrow> fst (putJSON fetch msg c) = Inl e)
   \<and> (fetch (url c) (getHeaders_fetchConfig c) = Inl e \<longrightarrow> fst (getHeaders fetch msg c) = Inl e)"
  by (simp add: getJSON_def postJSON_def deleteJSON_def putJSON_def json_request_rejected
        getHeaders_def)

theorem transport_failure_unchanged_witness:
  "unreachable_stub (url example_config) (getJSON_fetchConfig example_config)
     = Inl (Thrown ''TypeError: Failed to fetch'')
   \<and> fst (getJSON unreachable_stub example_message example_config)
       = Inl (Thrown ''TypeError: Failed to fetch'')
   \<and> fst (postJSON unreachable_stub example_message example_config)
       = Inl (Thrown ''TypeError: Failed to fetch'')
   \<and> fst (deleteJSON unreachable_stub example_message example_config)
       = Inl (Thrown ''TypeError: Failed to fetch'')
   \<and> fst (putJSON unreachable_stub example_message example_config)
       = Inl (Thrown ''TypeError: Failed to fetch'')
   \<and> fst (getHeaders unreachable_stub example_message example_config)
       = Inl (Thrown ''TypeError: Failed to fetch'')"
  using transport_failure_unchanged
    [of unreachable_stub example_config "Thrown ''TypeError: Failed to fetch''" example_message]
  by (simp add: unreachable_stub_def)

text \<open>
  Claim C8. For the same configuration, the \<open>fetchConfig\<close> of \<open>postJSON\<close> is that of
  \<open>putJSON\<close> and that of \<open>deleteJSON\<close> with the method replaced (POST, PUT, DELETE), and
  it is what \<open>postJSON\<close> would build without its second, conditional body source.
\<close>

theorem post_put_delete_differ_in_method_only:
  "postJSON_fetchConfig c = (putJSON_fetchConfig c)\<lparr>opt_method := Some ''POST''\<rparr>
   \<and> postJSON_fetchConfig c = (deleteJSON_fetchConfig c)\<lparr>opt_method := Some ''POST''\<rparr>
   \<and> opt_method (postJSON_fetchConfig c) = Some ''POST''
   \<and> opt_method (putJSON_fetchConfig c) = Some ''PUT''
   \<and> opt_method (deleteJSON_fetchConfig c) = Some ''DELETE''
   \<and> postJSON_fetchConfig c =
       Object_assign (requestBody c)
         [Some (withBaseFetchHeaders (headers c)), Some (no_options\<lparr>opt_method := Some ''POST''\<rparr>)]"
  by (simp add: fetchConfig_defs split: option.split)

text \<open>
  Claim C9. When \<open>config.headers\<close> is a \<open>Headers\<close> instance, the headers of the request of
  each operation are exactly the two defaults, whatever entries the instance has.
\<close>

theorem Headers_instance_not_copied:
  assumes "headers c = Some (HeadersInstance es)"
  shows "map (opt_headers \<circ> snd) (issued (snd (getJSON fetch msg c)))
           = [Some [''Accept'' \<mapsto> ''application/json'', ''Content-Type'' \<mapsto> ''application/json'']]
       \<and> map (opt_headers \<circ> snd) (issued (snd (postJSON fetch msg c)))
           = [Some [''Accept'' \<mapsto> ''application/json'', ''Content-Type'' \<mapsto> ''application/json'']]
       \<and> map (opt_headers \<circ> snd) (issued (snd (deleteJSON fetch msg c)))
           = [Some [''Accept'' \<mapsto> ''application/json'', ''Content-Type'' \<mapsto> ''application/json'']]
       \<and> map (opt_headers \<circ> snd) (issued (snd (putJSON fetch msg c)))
           = [Some [''Accept'' \<mapsto> ''application/json'', ''Content-Type'' \<mapsto> ''application/json'']]
       \<and> map (opt_headers \<circ> snd) (issued (snd (getHeaders fetch msg c)))
           = [Some [''Accept'' \<mapsto> ''application/json'', ''Content-Type'' \<mapsto> ''application/json'']]"
  using assms
  by (simp add: issued_simps opt_headers_fetchConfig assign_headers_def own_properties_def
        baseFetchHeaders_def)

theorem Headers_instance_not_copied_witness:
  "headers headers_instance_config = Some (HeadersInstance [(''Content-Type'', ''text/plain'')])
   \<and> map (\<lambda>(u, opts). map_option (\<lambda>h. (h ''Accept'', h ''Content-Type'', h ''X-Other''))
            (opt_headers opts))
        (issued (snd (putJSON ok_stub example_message headers_instance_config)))
       = [Some (Some ''application/json'', Some ''application/json'', None)]"
  using Headers_instance_not_copied
    [of headers_instance_config "[(''Content-Type'', ''text/plain'')]" ok_stub example_message]
  by (simp add: headers_instance_config_def issued_simps)

subsection \<open>The store: what is written, and that it builds the same request\<close>

lemma length_set_prop [simp]: "length (set_prop h a k v) = length h"
  by (simp add: set_prop_def split: cell.split)

lemma take_set_prop [simp]: "n \<le> a \<Longrightarrow> take n (set_prop h a k v) = take n h"
  by (simp add: set_prop_def split: cell.split)

lemma length_fold_set_prop [simp]:
  "length (fold (\<lambda>(k, v) h'. set_prop h' t k v) ps h) = length h"
  by (induction ps arbitrary: h) (simp_all add: split_beta)

lemma take_fold_set_prop [simp]:
  "n \<le> t \<Longrightarrow> take n (fold (\<lambda>(k, v) h'. set_prop h' t k v) ps h) = take n h"
  by (induction ps arbitrary: h) (simp_all add: split_beta)

lemma length_assign_into [simp]: "length (assign_into t h v) = length h"
  by (simp add: assign_into_def)

lemma take_assign_into [simp]: "n \<le> t \<Longrightarrow> take n (assign_into t h v) = take n h"
  by (simp add: assign_into_def)

lemma length_Object_assign_store [simp]: "length (Object_assign_store h t vs) = length h"
  unfolding Object_assign_store_def by (induction vs arbitrary: h) simp_all

lemma take_Object_assign_store [simp]:
  "n \<le> t \<Longrightarrow> take n (Object_assign_store h t vs) = take n h"
  unfolding Object_assign_store_def by (induction vs arbitrary: h) simp_all

lemma withBaseFetchHeaders_store_frame [simp]:
  "fst (withBaseFetchHeaders_store h v) = Suc (length h)"
  "length (snd (withBaseFetchHeaders_store h v)) = Suc (Suc (length h))"
  "n \<le> length h \<Longrightarrow> take n (snd (withBaseFetchHeaders_store h v)) = take n h"
  by (simp_all add: withBaseFetchHeaders_store_def alloc_def)

lemma requestBody_store_frame [simp]:
  "fst (requestBody_store h c) = length h"
  "length (snd (requestBody_store h c)) = Suc (length h)"
  "n \<le> length h \<Longrightarrow> take n (snd (requestBody_store h c)) = take n h"
  by (simp_all add: requestBody_store_def alloc_def)

lemma take_getJSON_store: "take (length h) (snd (getJSON_store h c)) = h"
  by (simp add: getJSON_store_def alloc_def split_beta)

lemma take_getHeaders_store: "take (length h) (snd (getHeaders_store h c)) = h"
  by (simp add: getHeaders_store_def alloc_def split_beta)

lemma take_deleteJSON_store: "take (length h) (snd (deleteJSON_store h c)) = h"
  by (simp add: deleteJSON_store_def alloc_def split_beta)

lemma take_putJSON_store: "take (length h) (snd (putJSON_store h c)) = h"
  by (simp add: putJSON_store_def alloc_def split_beta)

lemma take_postJSON_store: "take (length h) (snd (postJSON_store h c)) = h"
  by (simp add: postJSON_store_def alloc_def split_beta)


lemma map_of_assign_props: "map_of (assign_props ps src) = map_of ps ++ map_of (rev src)"
  unfolding assign_props_def
proof (induction src arbitrary: ps)
  case Nil
  then show ?case by simp
next
  case (Cons x src)
  show ?case
    by (cases x) (simp add: Cons.IH update_conv' map_add_upd_left fun_eq_iff map_add_def split: option.split)
qed

lemma map_of_rev_distinct: "distinct (map fst xs) \<Longrightarrow> map_of (rev xs) = map_of xs"
proof (induction xs)
  case Nil
  then show ?case by simp
next
  case (Cons x xs)
  obtain a b where x: "x = (a, b)" by (cases x)
  have none: "map_of xs a = None"
    using Cons.prems by (simp add: x map_of_eq_None_iff)
  have "map_of (rev (x # xs)) = [a \<mapsto> b] ++ map_of xs"
    using Cons by (simp add: x)
  also have "\<dots> = map_of (x # xs)"
    using none by (auto simp add: x fun_eq_iff map_add_def split: option.split)
  finally show ?case .
qed

lemma fold_set_prop_plain:
  "t < length h \<Longrightarrow> h ! t = PlainObject ps \<Longrightarrow>
   fold (\<lambda>(k, v) h'. set_prop h' t k v) src h = h[t := PlainObject (assign_props ps src)]"
proof (induction src arbitrary: h ps)
  case Nil
  then show ?case by (simp add: assign_props_def) (metis list_update_id)
next
  case (Cons x src)
  obtain k v where x: "x = (k, v)" by (cases x)
  have step: "set_prop h t k v = h[t := PlainObject (AList.update k v ps)]"
    using Cons.prems by (simp add: set_prop_def)
  show ?case
    using Cons.prems Cons.IH [of "h[t := PlainObject (AList.update k v ps)]" "AList.update k v ps"]
    by (simp add: x step assign_props_def)
qed

lemma assign_into_plain:
  "t < length h \<Longrightarrow> h ! t = PlainObject ps \<Longrightarrow>
   assign_into t h v = h[t := PlainObject (assign_props ps (own_enumerable h v))]"
  by (simp add: assign_into_def fold_set_prop_plain)


lemma strings_of_assign_props:
  assumes "distinct (map fst src)" and "list_all (is_Str \<circ> snd) src"
  shows "strings_of (assign_props ps src) = strings_of ps ++ strings_of src"
proof
  fix k
  have all: "\<And>v. map_of src k = Some v \<Longrightarrow> is_Str v"
    using assms(2) by (auto simp add: list_all_iff dest!: map_of_SomeD)
  show "strings_of (assign_props ps src) k = (strings_of ps ++ strings_of src) k"
    using all
    by (auto simp add: strings_of_def map_of_assign_props map_of_rev_distinct [OF assms(1)]
          map_add_def is_Str_def split: option.split val.split)
qed

lemma strings_of_base_props: "strings_of base_props = baseFetchHeaders"
  by (auto simp add: strings_of_def base_props_def baseFetchHeaders_def fun_eq_iff)

lemma holds_configD:
  assumes "holds_config h c"
  shows "c < length h" and "\<exists>ps. h ! c = PlainObject ps"
  using assms by (auto simp add: holds_config_def split: cell.splits)

lemma merged_headers:
  assumes "holds_config h c"
  shows "strings_of (assign_props base_props (own_enumerable h (prop_of h c ''headers'')))
         = assign_headers baseFetchHeaders (headers (read_config h c))"
proof -
  obtain ps where c: "c < length h" "h ! c = PlainObject ps"
    using holds_configD [OF assms] by blast
  show ?thesis
  proof (cases "map_of ps ''headers''")
    case None
    then show ?thesis
      using c by (simp add: prop_of_def own_enumerable_def read_config_def assign_headers_def
            own_properties_def assign_props_def strings_of_base_props)
  next
    case (Some v)
    show ?thesis
    proof (cases v)
      case (Ref a)
      have a: "a < length h"
        using assms c Some Ref by (simp add: holds_config_def)
      show ?thesis
      proof (cases "h ! a")
        case (PlainObject hs)
        have hs: "distinct (map fst hs)" "list_all (is_Str \<circ> snd) hs"
          using assms c Some Ref PlainObject by (simp_all add: holds_config_def)
        show ?thesis
          using c Some Ref a PlainObject
          by (simp add: prop_of_def own_enumerable_def read_config_def assign_headers_def
                own_properties_def strings_of_assign_props [OF hs] strings_of_base_props)
      next
        case (HeadersObject es)
        then show ?thesis
          using c Some Ref a
          by (simp add: prop_of_def own_enumerable_def read_config_def assign_headers_def
                own_properties_def assign_props_def strings_of_base_props)
      qed
    qed (use assms c Some in \<open>simp_all add: prop_of_def own_enumerable_def read_config_def
           assign_headers_def own_properties_def assign_props_def strings_of_base_props
           holds_config_def\<close>)
  qed
qed


lemma own_enumerable_append: "in_store h v \<Longrightarrow> own_enumerable (h @ xs) v = own_enumerable h v"
  by (auto simp add: in_store_def own_enumerable_def nth_append split: val.splits)

lemma prop_of_append: "a < length h \<Longrightarrow> prop_of (h @ xs) a k = prop_of h a k"
  by (simp add: prop_of_def own_enumerable_append in_store_def)

lemma in_store_append: "in_store h v \<Longrightarrow> in_store (h @ xs) v"
  by (auto simp add: in_store_def split: val.splits)

lemma own_enumerable_nth:
  "a < length h \<Longrightarrow> h ! a = PlainObject ps \<Longrightarrow> own_enumerable h (Ref a) = ps"
  by (simp add: own_enumerable_def)

lemma headers_in_store:
  assumes "holds_config h c"
  shows "in_store h (prop_of h c ''headers'')"
proof -
  obtain ps where c: "c < length h" "h ! c = PlainObject ps"
    using holds_configD [OF assms] by blast
  show ?thesis
  proof (cases "map_of ps ''headers''")
    case None
    then show ?thesis using c by (simp add: in_store_def prop_of_def own_enumerable_def)
  next
    case (Some v)
    then show ?thesis
      using assms c
      by (cases v) (simp_all add: in_store_def prop_of_def own_enumerable_def holds_config_def)
  qed
qed

lemma withBaseFetchHeaders_store_eq:
  assumes "in_store h v"
  shows "withBaseFetchHeaders_store h v =
           (Suc (length h),
            h @ [PlainObject (assign_props base_props (own_enumerable h v)),
                 PlainObject [(''headers'', Ref (length h))]])"
proof -
  have "assign_into (length h) (h @ [PlainObject base_props]) v
          = (h @ [PlainObject base_props])
              [length h := PlainObject (assign_props base_props (own_enumerable (h @ [PlainObject base_props]) v))]"
    by (rule assign_into_plain) simp_all
  then show ?thesis
    using assms
    by (simp add: withBaseFetchHeaders_store_def alloc_def Object_assign_store_def
          own_enumerable_append)
qed

lemma getJSON_store_eq:
  assumes "holds_config h c"
  shows "getJSON_store h c =
           (length h,
            h @ [PlainObject [(''headers'', Ref (Suc (length h))), (''method'', Str ''GET'')],
                 PlainObject (assign_props base_props (own_enumerable h (prop_of h c ''headers''))),
                 PlainObject [(''headers'', Ref (Suc (length h)))]])"
proof -
  have c: "c < length h" using holds_configD(1) [OF assms] .
  have v: "in_store (h @ [PlainObject []]) (prop_of h c ''headers'')"
    using headers_in_store [OF assms] by (rule in_store_append)
  show ?thesis
    using c headers_in_store [OF assms]
    by (simp add: getJSON_store_def alloc_def prop_of_append withBaseFetchHeaders_store_eq [OF v]
          own_enumerable_append assign_into_plain [where ps = "[]"] nth_append
          own_enumerable_nth [where ps = "[(''headers'', Ref (Suc (length h)))]"]
          assign_props_def set_prop_def)
qed


lemma data_cases:
  assumes "holds_config h c"
  shows "prop_of h c ''data'' = Undefined \<and> data (read_config h c) = None
       \<or> (\<exists>d. prop_of h c ''data'' = Data d \<and> data (read_config h c) = Some d)"
proof -
  obtain ps where c: "c < length h" "h ! c = PlainObject ps"
    using holds_configD [OF assms] by blast
  show ?thesis
  proof (cases "map_of ps ''data''")
    case None
    then show ?thesis using c by (simp add: read_config_def prop_of_def own_enumerable_def)
  next
    case (Some v)
    then show ?thesis
      using assms c
      by (cases v) (simp_all add: read_config_def prop_of_def own_enumerable_def holds_config_def)
  qed
qed

lemma prop_of_fresh:
  "prop_of (h @ PlainObject ps # cells) (length h) k
     = (case map_of ps k of Some v \<Rightarrow> v | None \<Rightarrow> Undefined)"
  by (simp add: prop_of_def own_enumerable_def)

lemma own_enumerable_second:
  "own_enumerable (h @ c0 # PlainObject ps # cells) (Ref (Suc (length h))) = ps"
  by (simp add: own_enumerable_def nth_append)

lemma read_options_getJSON:
  assumes "holds_config h c"
  shows "read_options (snd (getJSON_store h c)) (fst (getJSON_store h c))
         = getJSON_fetchConfig (read_config h c)"
  by (simp add: getJSON_store_eq [OF assms] read_options_def prop_of_fresh own_enumerable_second
        merged_headers [OF assms] getJSON_fetchConfig_def withBaseFetchHeaders_def
        no_options_def)

lemma mutating_store_eq:
  assumes "holds_config h c"
  shows "(let (requestBody, h1) = requestBody_store h c;
              (w, h2) = withBaseFetchHeaders_store h1 (prop_of h1 c ''headers'');
              (m, h3) = alloc h2 (PlainObject [(''method'', Str verb)])
          in (requestBody, Object_assign_store h3 requestBody [Ref w, Ref m]))
         = (length h,
            h @ [PlainObject
                   ((if truthy (prop_of h c ''data'')
                     then [(''body'', stringify_val (prop_of h c ''data''))] else [])
                    @ [(''headers'', Ref (Suc (length h))), (''method'', Str verb)]),
                 PlainObject (assign_props base_props (own_enumerable h (prop_of h c ''headers''))),
                 PlainObject [(''headers'', Ref (Suc (length h)))],
                 PlainObject [(''method'', Str verb)]])"
proof -
  have c: "c < length h" using holds_configD(1) [OF assms] .
  let ?rb = "if truthy (prop_of h c ''data'')
             then [(''body'', stringify_val (prop_of h c ''data''))] else []"
  have rb: "requestBody_store h c = (length h, h @ [PlainObject ?rb])"
    by (simp add: requestBody_store_def alloc_def)
  have v: "in_store (h @ [PlainObject ?rb]) (prop_of h c ''headers'')"
    using headers_in_store [OF assms] by (rule in_store_append)
  show ?thesis
    using c headers_in_store [OF assms]
    by (simp add: rb alloc_def prop_of_append withBaseFetchHeaders_store_eq [OF v]
          own_enumerable_append Object_assign_store_def
          assign_into_plain [where ps = "?rb"]
          assign_into_plain [where ps = "assign_props ?rb [(''headers'', Ref (Suc (length h)))]"]
          nth_append
          own_enumerable_nth [where ps = "[(''headers'', Ref (Suc (length h)))]"]
          own_enumerable_nth [where ps = "[(''method'', Str verb)]"]
          assign_props_def)
qed


lemma getHeaders_store_eq:
  assumes "holds_config h c"
  shows "getHeaders_store h c =
           (length h,
            h @ [PlainObject [(''headers'', Ref (Suc (length h))), (''method'', Str ''HEAD'')],
                 PlainObject (assign_props base_props (own_enumerable h (prop_of h c ''headers''))),
                 PlainObject [(''headers'', Ref (Suc (length h)))]])"
proof -
  have c: "c < length h" using holds_configD(1) [OF assms] .
  have v: "in_store (h @ [PlainObject []]) (prop_of h c ''headers'')"
    using headers_in_store [OF assms] by (rule in_store_append)
  show ?thesis
    using c headers_in_store [OF assms]
    by (simp add: getHeaders_store_def alloc_def prop_of_append withBaseFetchHeaders_store_eq [OF v]
          own_enumerable_append assign_into_plain [where ps = "[]"] nth_append
          own_enumerable_nth [where ps = "[(''headers'', Ref (Suc (length h)))]"]
          assign_props_def set_prop_def)
qed

lemma read_options_getHeaders:
  assumes "holds_config h c"
  shows "read_options (snd (getHeaders_store h c)) (fst (getHeaders_store h c))
         = getHeaders_fetchConfig (read_config h c)"
  by (simp add: getHeaders_store_eq [OF assms] read_options_def prop_of_fresh own_enumerable_second
        merged_headers [OF assms] getHeaders_fetchConfig_def withBaseFetchHeaders_def
        no_options_def)

lemma read_options_mutating:
  assumes "holds_config h c"
  shows "read_options
           (h @ [PlainObject
                   ((if truthy (prop_of h c ''data'')
                     then [(''body'', stringify_val (prop_of h c ''data''))] else [])
                    @ [(''headers'', Ref (Suc (length h))), (''method'', Str verb)]),
                 PlainObject (assign_props base_props (own_enumerable h (prop_of h c ''headers'')))]
              @ cells)
           (length h)
         = Object_assign (requestBody (read_config h c))
             [Some (withBaseFetchHeaders (headers (read_config h c))),
              Some (no_options\<lparr>opt_method := Some verb\<rparr>)]"
  using data_cases [OF assms]
  by (auto simp add: read_options_def prop_of_fresh own_enumerable_second merged_headers [OF assms]
        truthy_def stringify_val_def Object_assign_def assign_one_def requestBody_def
        withBaseFetchHeaders_def no_options_def)

lemma read_options_deleteJSON:
  assumes "holds_config h c"
  shows "read_options (snd (deleteJSON_store h c)) (fst (deleteJSON_store h c))
         = deleteJSON_fetchConfig (read_config h c)"
proof -
  have eq: "deleteJSON_store h c =
      (length h,
       h @ [PlainObject
              ((if truthy (prop_of h c ''data'')
                then [(''body'', stringify_val (prop_of h c ''data''))] else [])
               @ [(''headers'', Ref (Suc (length h))), (''method'', Str ''DELETE'')]),
            PlainObject (assign_props base_props (own_enumerable h (prop_of h c ''headers''))),
            PlainObject [(''headers'', Ref (Suc (length h)))],
            PlainObject [(''method'', Str ''DELETE'')]])"
    unfolding deleteJSON_store_def by (rule mutating_store_eq [OF assms])
  show ?thesis
    using read_options_mutating [OF assms, of "''DELETE''"
        "[PlainObject [(''headers'', Ref (Suc (length h)))], PlainObject [(''method'', Str ''DELETE'')]]"]
    by (simp add: eq deleteJSON_fetchConfig_def)
qed

lemma read_options_putJSON:
  assumes "holds_config h c"
  shows "read_options (snd (putJSON_store h c)) (fst (putJSON_store h c))
         = putJSON_fetchConfig (read_config h c)"
proof -
  have eq: "putJSON_store h c =
      (length h,
       h @ [PlainObject
              ((if truthy (prop_of h c ''data'')
                then [(''body'', stringify_val (prop_of h c ''data''))] else [])
               @ [(''headers'', Ref (Suc (length h))), (''method'', Str ''PUT'')]),
            PlainObject (assign_props base_props (own_enumerable h (prop_of h c ''headers''))),
            PlainObject [(''headers'', Ref (Suc (length h)))],
            PlainObject [(''method'', Str ''PUT'')]])"
    unfolding putJSON_store_def by (rule mutating_store_eq [OF assms])
  show ?thesis
    using read_options_mutating [OF assms, of "''PUT''"
        "[PlainObject [(''headers'', Ref (Suc (length h)))], PlainObject [(''method'', Str ''PUT'')]]"]
    by (simp add: eq putJSON_fetchConfig_def)
qed


lemma read_options_postJSON:
  assumes "holds_config h c"
  shows "read_options (snd (postJSON_store h c)) (fst (postJSON_store h c))
         = postJSON_fetchConfig (read_config h c)"
proof -
  have c: "c < length h" using holds_configD(1) [OF assms] .
  note hv = headers_in_store [OF assms]
  from data_cases [OF assms] show ?thesis
  proof (elim disjE conjE exE)
    assume d: "prop_of h c ''data'' = Undefined" "data (read_config h c) = None"
    have v: "in_store (h @ [PlainObject []]) (prop_of h c ''headers'')"
      using hv by (rule in_store_append)
    have eq: "postJSON_store h c =
        (length h,
         h @ [PlainObject [(''headers'', Ref (Suc (length h))), (''method'', Str ''POST'')],
              PlainObject (assign_props base_props (own_enumerable h (prop_of h c ''headers''))),
              PlainObject [(''headers'', Ref (Suc (length h)))],
              PlainObject [(''method'', Str ''POST'')]])"
      using c hv
      by (simp add: postJSON_store_def requestBody_store_def d truthy_def alloc_def prop_of_append
            withBaseFetchHeaders_store_eq [OF v] own_enumerable_append Object_assign_store_def
            assign_into_plain [where ps = "[]"]
            assign_into_plain [where ps = "[(''headers'', Ref (Suc (length h)))]"]
            nth_append
            own_enumerable_nth [where ps = "[(''headers'', Ref (Suc (length h)))]"]
            own_enumerable_nth [where ps = "[(''method'', Str ''POST'')]"]
            own_enumerable_def [of _ Undefined]
            assign_props_def)
    show ?thesis
      by (simp add: eq read_options_def prop_of_fresh own_enumerable_second
            merged_headers [OF assms] d postJSON_fetchConfig_def Object_assign_def assign_one_def
            requestBody_def withBaseFetchHeaders_def no_options_def)
  next
    fix dv
    assume d: "prop_of h c ''data'' = Data dv" "data (read_config h c) = Some dv"
    let ?b = "(''body'', Str (JSON_stringify (json_of dv)))"
    have v: "in_store (h @ [PlainObject [?b], PlainObject [?b]]) (prop_of h c ''headers'')"
      using hv by (rule in_store_append)
    have eq: "postJSON_store h c =
        (length h,
         h @ [PlainObject [?b, (''headers'', Ref (Suc (Suc (length h)))), (''method'', Str ''POST'')],
              PlainObject [?b],
              PlainObject (assign_props base_props (own_enumerable h (prop_of h c ''headers''))),
              PlainObject [(''headers'', Ref (Suc (Suc (length h))))],
              PlainObject [(''method'', Str ''POST'')]])"
      using c hv
      by (simp add: postJSON_store_def requestBody_store_def d truthy_def stringify_val_def
            alloc_def prop_of_append
            prop_of_append [where xs = "[PlainObject [?b], PlainObject [?b]]", simplified]
            withBaseFetchHeaders_store_eq [OF v, simplified]
            own_enumerable_append [where xs = "[PlainObject [?b], PlainObject [?b]]", simplified]
            Object_assign_store_def
            assign_into_plain [where ps = "[?b]"]
            assign_into_plain [where ps = "[?b, (''headers'', Ref (Suc (Suc (length h))))]"]
            nth_append
            own_enumerable_nth [where ps = "[?b]"]
            own_enumerable_nth [where ps = "[(''headers'', Ref (Suc (Suc (length h))))]"]
            own_enumerable_nth [where ps = "[(''method'', Str ''POST'')]"]
            assign_props_def)
    have hd: "own_enumerable
        (h @ [PlainObject [?b, (''headers'', Ref (Suc (Suc (length h)))), (''method'', Str ''POST'')],
              PlainObject [?b],
              PlainObject (assign_props base_props (own_enumerable h (prop_of h c ''headers''))),
              PlainObject [(''headers'', Ref (Suc (Suc (length h))))],
              PlainObject [(''method'', Str ''POST'')]])
        (Ref (Suc (Suc (length h))))
        = assign_props base_props (own_enumerable h (prop_of h c ''headers''))"
      by (simp add: own_enumerable_def nth_append)
    show ?thesis
      by (simp add: eq read_options_def prop_of_fresh hd
            merged_headers [OF assms] d postJSON_fetchConfig_def Object_assign_def assign_one_def
            requestBody_def withBaseFetchHeaders_def no_options_def)
  qed
qed

lemma read_config_extension:
  assumes "holds_config h c" and "take (length h) h' = h"
  shows "read_config h' c = read_config h c"
proof -
  obtain xs where h': "h' = h @ xs"
    using assms(2) by (metis append_take_drop_id)
  have c: "c < length h"
    using holds_configD(1) [OF assms(1)] .
  show ?thesis
    using c headers_in_store [OF assms(1)]
    by (auto simp add: read_config_def h' prop_of_append in_store_def nth_append split: val.splits)
qed

text \<open>
  Claim C10. No operation writes to an object that existed before the call: the store an
  operation leaves extends the store it started from, so the configuration object and the
  headers object it refers to are as they were, and the configuration read back after the
  call is the configuration read before it.
\<close>

theorem operations_leave_config_unchanged:
  "take (length h) (snd (getJSON_store h c)) = h
   \<and> take (length h) (snd (postJSON_store h c)) = h
   \<and> take (length h) (snd (deleteJSON_store h c)) = h
   \<and> take (length h) (snd (putJSON_store h c)) = h
   \<and> take (length h) (snd (getHeaders_store h c)) = h
   \<and> (holds_config h c \<longrightarrow>
        read_config (snd (getJSON_store h c)) c = read_config h c
        \<and> read_config (snd (postJSON_store h c)) c = read_config h c
        \<and> read_config (snd (deleteJSON_store h c)) c = read_config h c
        \<and> read_config (snd (putJSON_store h c)) c = read_config h c
        \<and> read_config (snd (getHeaders_store h c)) c = read_config h c)"
proof (intro conjI impI)
  assume hc: "holds_config h c"
  show "read_config (snd (getJSON_store h c)) c = read_config h c"
    by (rule read_config_extension [OF hc take_getJSON_store])
  show "read_config (snd (postJSON_store h c)) c = read_config h c"
    by (rule read_config_extension [OF hc take_postJSON_store])
  show "read_config (snd (deleteJSON_store h c)) c = read_config h c"
    by (rule read_config_extension [OF hc take_deleteJSON_store])
  show "read_config (snd (putJSON_store h c)) c = read_config h c"
    by (rule read_config_extension [OF hc take_putJSON_store])
  show "read_config (snd (getHeaders_store h c)) c = read_config h c"
    by (rule read_config_extension [OF hc take_getHeaders_store])
qed (rule take_getJSON_store take_postJSON_store take_deleteJSON_store take_putJSON_store
       take_getHeaders_store)+

lemma example_store_holds_config: "holds_config example_store 0"
  by (simp add: holds_config_def example_store_def is_Str_def)

theorem operations_leave_config_unchanged_witness:
  "holds_config example_store 0
   \<and> read_config (snd (postJSON_store example_store 0)) 0 = read_config example_store 0
   \<and> read_config (snd (getHeaders_store example_store 0)) 0 = read_config example_store 0
   \<and> take (length example_store) (snd (postJSON_store example_store 0)) = example_store"
  using operations_leave_config_unchanged [of example_store 0] example_store_holds_config
  by (simp only: simp_thms)

end
